theory Spec2Isabelle
  imports Complex_Main "HOL-Library.Sublist"
begin

section \<open>Python values used by app.py\<close>

text \<open>
  A Python \<open>str\<close> is modelled as a \<open>string\<close> whose characters are the code points
  U+0000 to U+00FF. The character classes below are the ones CPython's \<open>str.isupper\<close>,
  \<open>str.islower\<close> and \<open>str.strip\<close> use on that range.
\<close>

definition py_isspace_char :: "char \<Rightarrow> bool" where
  "py_isspace_char c =
     (let n = (of_char c :: nat)
      in (9 \<le> n \<and> n \<le> 13) \<or> (28 \<le> n \<and> n \<le> 32) \<or> n = 133 \<or> n = 160)"

definition py_isupper_char :: "char \<Rightarrow> bool" where
  "py_isupper_char c =
     (let n = (of_char c :: nat)
      in (65 \<le> n \<and> n \<le> 90) \<or> (192 \<le> n \<and> n \<le> 214) \<or> (216 \<le> n \<and> n \<le> 222))"

definition py_islower_char :: "char \<Rightarrow> bool" where
  "py_islower_char c =
     (let n = (of_char c :: nat)
      in (97 \<le> n \<and> n \<le> 122) \<or> n = 170 \<or> n = 181 \<or> n = 186
         \<or> (223 \<le> n \<and> n \<le> 246) \<or> (248 \<le> n \<and> n \<le> 255))"

text \<open>No code point below U+0100 is a titlecase letter.\<close>

definition py_istitle_char :: "char \<Rightarrow> bool" where
  "py_istitle_char c = False"

text \<open>
  \<open>str.isupper\<close>: the scan returns False at the first lowercase or titlecase character
  and otherwise reports whether an uppercase character was seen.
\<close>

fun isupper_scan :: "bool \<Rightarrow> string \<Rightarrow> bool" where
  "isupper_scan cased [] = cased"
| "isupper_scan cased (c # cs) =
     (if py_islower_char c \<or> py_istitle_char c then False
      else isupper_scan (cased \<or> py_isupper_char c) cs)"

definition py_isupper :: "string \<Rightarrow> bool" where
  "py_isupper s = isupper_scan False s"

text \<open>\<open>s.strip()\<close>, \<open>s.strip(chars)\<close> and \<open>s.rstrip(chars)\<close>.\<close>

definition py_strip :: "string \<Rightarrow> string" where
  "py_strip s = rev (dropWhile py_isspace_char (rev (dropWhile py_isspace_char s)))"

definition py_strip_chars :: "string \<Rightarrow> string \<Rightarrow> string" where
  "py_strip_chars chars s =
     rev (dropWhile (\<lambda>c. c \<in> set chars) (rev (dropWhile (\<lambda>c. c \<in> set chars) s)))"

definition py_rstrip_chars :: "string \<Rightarrow> string \<Rightarrow> string" where
  "py_rstrip_chars chars s = rev (dropWhile (\<lambda>c. c \<in> set chars) (rev s))"

definition py_endswith :: "string \<Rightarrow> string \<Rightarrow> bool" where
  "py_endswith s suf \<longleftrightarrow>
     length suf \<le> length s \<and> drop (length s - length suf) s = suf"

text \<open>\<open>s.split(sep)\<close> for a one-character separator, and \<open>sep.join(xs)\<close>.\<close>

fun py_split :: "char \<Rightarrow> string \<Rightarrow> string list" where
  "py_split sep [] = [[]]"
| "py_split sep (c # cs) =
     (if c = sep then [] # py_split sep cs
      else (case py_split sep cs of [] \<Rightarrow> [[c]] | l # ls \<Rightarrow> (c # l) # ls))"

fun py_join :: "string \<Rightarrow> string list \<Rightarrow> string" where
  "py_join sep [] = []"
| "py_join sep [x] = x"
| "py_join sep (x # y # ys) = x @ sep @ py_join sep (y # ys)"

text \<open>\<open>s[:n]\<close> for a non-negative literal \<open>n\<close>.\<close>

definition py_slice_to :: "nat \<Rightarrow> string \<Rightarrow> string" where
  "py_slice_to n s = take n s"

abbreviation NL :: char where
  "NL \<equiv> CHR 0x0A"

abbreviation DQ :: char where
  "DQ \<equiv> CHR 0x22"

abbreviation SQ :: char where
  "SQ \<equiv> CHR 0x27"

abbreviation BS :: char where
  "BS \<equiv> CHR 0x5C"

text \<open>
  \<open>s.replace(old, new)\<close>: the occurrences of \<open>old\<close> are replaced from left to right
  without overlap. For an empty \<open>old\<close> Python puts \<open>new\<close> before every character and
  at the end.
\<close>

fun replace_scan :: "string \<Rightarrow> string \<Rightarrow> string \<Rightarrow> string" where
  "replace_scan old new [] = []"
| "replace_scan old new (c # cs) =
     (if old \<noteq> [] \<and> take (length old) (c # cs) = old
      then new @ replace_scan old new (drop (length old - 1) cs)
      else c # replace_scan old new cs)"

definition py_replace :: "string \<Rightarrow> string \<Rightarrow> string \<Rightarrow> string" where
  "py_replace old new s =
     (if old = [] then new @ concat (map (\<lambda>c. c # new) s) else replace_scan old new s)"

subsection \<open>Exceptions\<close>

text \<open>
  Exceptions deriving from \<open>Exception\<close>, each with the text \<open>str(e)\<close> gives. A raising
  computation is a value \<open>Inl e\<close>. The kind is the class an \<open>except\<close> clause matches:
  \<open>ValueError\<close> is a ValueError that is not a JSONDecodeError.
\<close>

datatype exn_kind = KeyError | JSONDecodeError | AttributeError | ValueError | OtherException

datatype exn = Exn (kind: exn_kind) (message: string)

subsection \<open>Dictionaries\<close>

text \<open>
  A \<open>dict\<close> keeps its keys in insertion order; assigning to a key that is present
  replaces the value where the key stands, assigning to a new key appends it.
\<close>

type_synonym ('k, 'v) pydict = "('k \<times> 'v) list"

fun dict_set :: "'k \<Rightarrow> 'v \<Rightarrow> ('k, 'v) pydict \<Rightarrow> ('k, 'v) pydict" where
  "dict_set k v [] = [(k, v)]"
| "dict_set k v (p # d) = (if fst p = k then (k, v) # d else p # dict_set k v d)"

text \<open>\<open>d[k]\<close> raises KeyError on a missing key; its message is the quoted key.\<close>

definition dict_get :: "string \<Rightarrow> (string, 'v) pydict \<Rightarrow> exn + 'v" where
  "dict_get k d =
     (case map_of d k of
        None \<Rightarrow> Inl (Exn KeyError ([SQ] @ k @ [SQ]))
      | Some v \<Rightarrow> Inr v)"

definition dict_keys :: "('k, 'v) pydict \<Rightarrow> 'k list" where
  "dict_keys d = map fst d"

section \<open>StyleGuideProcessor.process_style_guide\<close>

text \<open>The test of line 30: \<open>line.isupper() or line.strip().endswith(':')\<close>.\<close>

definition is_header_line :: "string \<Rightarrow> bool" where
  "is_header_line line \<longleftrightarrow> py_isupper line \<or> py_endswith (py_strip line) '':''"

text \<open>The name of line 31: \<open>line.strip().rstrip(':')\<close>.\<close>

definition header_name :: "string \<Rightarrow> string" where
  "header_name line = py_rstrip_chars '':'' (py_strip line)"

type_synonym scan_state = "string \<times> (string, string list) pydict"

text \<open>One iteration of the loop of lines 29 to 34 on \<open>(current_section, sections)\<close>.\<close>

definition scan_line :: "scan_state \<Rightarrow> string \<Rightarrow> exn + scan_state" where
  "scan_line st line =
     (case st of (current_section, sections) \<Rightarrow>
        if is_header_line line then
          (let current_section' = header_name line
           in Inr (current_section', dict_set current_section' [] sections))
        else
          (case dict_get current_section sections of
             Inl e \<Rightarrow> Inl e
           | Inr body \<Rightarrow> Inr (current_section, dict_set current_section (body @ [line]) sections)))"

fun scan_lines :: "scan_state \<Rightarrow> string list \<Rightarrow> exn + scan_state" where
  "scan_lines st [] = Inr st"
| "scan_lines st (line # rest) =
     (case scan_line st line of Inl e \<Rightarrow> Inl e | Inr st' \<Rightarrow> scan_lines st' rest)"

definition initial_scan_state :: scan_state where
  "initial_scan_state = (''General'', [(''General'', [])])"

definition process_style_guide :: "string \<Rightarrow> exn + (string, string) pydict" where
  "process_style_guide text =
     (case scan_lines initial_scan_state (py_split NL text) of
        Inl e \<Rightarrow> Inl e
      | Inr (current_section, sections) \<Rightarrow>
          Inr (map (\<lambda>(k, v). (k, py_join [NL] v)) sections))"

text \<open>The lines of the bodies of a returned mapping, in the order of the mapping.\<close>

definition body_lines :: "(string, string) pydict \<Rightarrow> string list" where
  "body_lines sg = concat (map (\<lambda>(k, body). py_split NL body) sg)"

text \<open>
  The texts in which no line is dropped or overtaken: no header line names a section that
  holds a line already (line 32 would discard it), and no line is added to a section
  that stands in the dictionary before a section holding a line.
\<close>

definition section_holds_line :: "string \<Rightarrow> (string, string list) pydict \<Rightarrow> bool" where
  "section_holds_line k sections =
     (case map_of sections k of None \<Rightarrow> False | Some body \<Rightarrow> body \<noteq> [])"

definition later_section_holds_line :: "string \<Rightarrow> (string, string list) pydict \<Rightarrow> bool" where
  "later_section_holds_line k sections =
     (\<not> list_all (\<lambda>p. snd p = []) (tl (dropWhile (\<lambda>p. fst p \<noteq> k) sections)))"

fun order_kept :: "scan_state \<Rightarrow> string list \<Rightarrow> bool" where
  "order_kept st [] = True"
| "order_kept st (line # rest) =
     ((if is_header_line line then \<not> section_holds_line (header_name line) (snd st)
       else \<not> later_section_holds_line (fst st) (snd st))
      \<and> (case scan_line st line of Inl e \<Rightarrow> False | Inr st' \<Rightarrow> order_kept st' rest))"

definition sections_grow_in_order :: "string \<Rightarrow> bool" where
  "sections_grow_in_order text = order_kept initial_scan_state (py_split NL text)"

definition non_header_lines :: "string \<Rightarrow> string list" where
  "non_header_lines text = filter (\<lambda>l. \<not> is_header_line l) (py_split NL text)"

definition header_names :: "string \<Rightarrow> string list" where
  "header_names text = map header_name (filter is_header_line (py_split NL text))"

text \<open>
  The header rule in the words of the specification: the trimmed line has a letter and all
  its letters are uppercase, or the trimmed line ends with a colon. A letter is a character
  that is uppercase or lowercase.
\<close>

definition spec_is_letter :: "char \<Rightarrow> bool" where
  "spec_is_letter c \<longleftrightarrow> py_isupper_char c \<or> py_islower_char c"

definition spec_header_line :: "string \<Rightarrow> bool" where
  "spec_header_line line \<longleftrightarrow>
     (let t = py_strip line
      in ((\<exists>c \<in> set t. spec_is_letter c)
            \<and> (\<forall>c \<in> set t. spec_is_letter c \<longrightarrow> py_isupper_char c))
         \<or> (t \<noteq> [] \<and> last t = CHR '':''))"

section \<open>ContentFormatter.clean_text\<close>

text \<open>
  The value handed to \<open>clean_text\<close> is a string, or a dict or list, which line 44 turns
  into its \<open>str()\<close>; a structured value is represented by that text.
\<close>

datatype payload = PStr string | PStructured string

definition py_str :: "payload \<Rightarrow> string" where
  "py_str p = (case p of PStr s \<Rightarrow> s | PStructured r \<Rightarrow> r)"

definition textblock_open :: string where
  "textblock_open = ''[TextBlock(text='' @ [DQ]"

definition textblock_close :: string where
  "textblock_close = [DQ] @ '', type='' @ [DQ] @ ''text'' @ [DQ] @ '')]''"

definition clean_text :: "payload \<Rightarrow> string" where
  "clean_text p =
     (let text = (case p of PStructured r \<Rightarrow> r | PStr s \<Rightarrow> s);
          text = py_replace textblock_open [] text;
          text = py_replace textblock_close [] text;
          text = py_replace [BS, CHR ''n''] [NL] text;
          text = py_replace [BS, CHR ''r''] [CHR 0x0D] text;
          text = py_strip_chars [DQ, SQ] text
      in py_strip text)"

text \<open>The inputs the idempotence property is stated for.\<close>

definition marker_free :: "string \<Rightarrow> bool" where
  "marker_free x \<longleftrightarrow>
     \<not> sublist textblock_open x \<and> \<not> sublist textblock_close x
     \<and> \<not> sublist [BS, CHR ''n''] x \<and> \<not> sublist [BS, CHR ''r''] x"

definition quote_ended :: "string \<Rightarrow> bool" where
  "quote_ended y \<longleftrightarrow> y \<noteq> [] \<and> (hd y \<in> {DQ, SQ} \<or> last y \<in> {DQ, SQ})"

section \<open>Values returned by json.loads\<close>

datatype pyval =
    PyNone
  | PyBool bool
  | PyInt int
  | PyStr string
  | PyList "pyval list"
  | PyDict "(string, pyval) pydict"

text \<open>
  \<open>json.loads\<close> belongs to the standard library. The functions of the analyzer take it as
  a parameter \<open>loads\<close>, so what is proved of them holds whatever it returns or raises. The
  scanner below follows the library's decoder on the documents made of objects, arrays,
  strings without escape sequences, integers, \<open>true\<close>, \<open>false\<close> and \<open>null\<close>; it serves to
  run the analyzer on concrete responses of that kind. Escapes and floating-point numbers
  are not covered (the scanner rejects them). The text of a JSONDecodeError is never read
  by app.py.
\<close>

definition decode_error :: "exn + 'a" where
  "decode_error = Inl (Exn JSONDecodeError ''Expecting value'')"

definition json_ws :: "char \<Rightarrow> bool" where
  "json_ws c \<longleftrightarrow> c = CHR '' '' \<or> c = CHR 0x09 \<or> c = NL \<or> c = CHR 0x0D"

definition skip_ws :: "string \<Rightarrow> string" where
  "skip_ws s = dropWhile json_ws s"

fun scan_string :: "string \<Rightarrow> (string \<times> string) option" where
  "scan_string [] = None"
| "scan_string (c # cs) =
     (if c = DQ then Some ([], cs)
      else if c = BS \<or> (of_char c :: nat) < 32 then None
      else (case scan_string cs of None \<Rightarrow> None | Some (s, rest) \<Rightarrow> Some (c # s, rest)))"

definition is_digit :: "char \<Rightarrow> bool" where
  "is_digit c \<longleftrightarrow> 48 \<le> (of_char c :: nat) \<and> (of_char c :: nat) \<le> 57"

definition digits_value :: "string \<Rightarrow> nat" where
  "digits_value ds = foldl (\<lambda>n c. 10 * n + (of_char c - 48)) 0 ds"

definition float_follows :: "string \<Rightarrow> bool" where
  "float_follows rest =
     (case rest of
        [] \<Rightarrow> False
      | c # cs \<Rightarrow>
          if c = CHR ''.'' then (case cs of [] \<Rightarrow> False | d # _ \<Rightarrow> is_digit d)
          else if c = CHR ''e'' \<or> c = CHR ''E'' then
            (case cs of
               [] \<Rightarrow> False
             | d # ds \<Rightarrow>
                 if d = CHR ''+'' \<or> d = CHR ''-''
                 then (case ds of [] \<Rightarrow> False | d' # _ \<Rightarrow> is_digit d')
                 else is_digit d)
          else False)"

text \<open>\<open>str(n)\<close> for a natural number.\<close>

fun str_nat :: "nat \<Rightarrow> string" where
  "str_nat n =
     (if n < 10 then [char_of (48 + n)]
      else str_nat (n div 10) @ [char_of (48 + n mod 10)])"

declare str_nat.simps [simp del]

text \<open>
  \<open>int(s)\<close> refuses a literal of more than 4300 digits (the default of
  \<open>sys.set_int_max_str_digits\<close>) with a ValueError.
\<close>

definition int_too_long :: "nat \<Rightarrow> exn" where
  "int_too_long n =
     Exn ValueError
       (''Exceeds the limit (4300 digits) for integer string conversion: value has ''
        @ str_nat n @ '' digits; use sys.set_int_max_str_digits() to increase the limit'')"

definition scan_int :: "string \<Rightarrow> exn + (int \<times> string)" where
  "scan_int s =
     (let neg = (s \<noteq> [] \<and> hd s = CHR ''-'');
          t = (if neg then tl s else s);
          ds = (case t of [] \<Rightarrow> [] | c # cs \<Rightarrow> if c = CHR ''0'' then [c] else takeWhile is_digit t);
          rest = drop (length ds) t
      in if ds = [] \<or> float_follows rest then decode_error
         else if 4300 < length ds then Inl (int_too_long (length ds))
         else Inr (if neg then - int (digits_value ds) else int (digits_value ds), rest))"

text \<open>\<open>dict(pairs)\<close>: a repeated key keeps its first place and its last value.\<close>

definition dict_of_pairs :: "('k \<times> 'v) list \<Rightarrow> ('k, 'v) pydict" where
  "dict_of_pairs kvs = foldl (\<lambda>d (k, v). dict_set k v d) [] kvs"

text \<open>
  The first argument bounds the number of nested calls; \<open>scan_array\<close> and \<open>scan_object\<close>
  start after the opening bracket and the whitespace behind it, at the first element.
\<close>

fun scan_value :: "nat \<Rightarrow> string \<Rightarrow> exn + (pyval \<times> string)"
  and scan_array :: "nat \<Rightarrow> string \<Rightarrow> exn + (pyval list \<times> string)"
  and scan_object :: "nat \<Rightarrow> string \<Rightarrow> exn + ((string \<times> pyval) list \<times> string)"
where
  "scan_value 0 s = decode_error"
| "scan_value (Suc n) [] = decode_error"
| "scan_value (Suc n) (c # cs) =
     (if c = DQ then
        (case scan_string cs of None \<Rightarrow> decode_error | Some (s, r) \<Rightarrow> Inr (PyStr s, r))
      else if c = CHR ''{'' then
        (case skip_ws cs of
           [] \<Rightarrow> decode_error
         | d # ds \<Rightarrow>
             if d = CHR ''}'' then Inr (PyDict [], ds)
             else (case scan_object n (d # ds) of
                     Inl e \<Rightarrow> Inl e
                   | Inr (kvs, r) \<Rightarrow> Inr (PyDict (dict_of_pairs kvs), r)))
      else if c = CHR ''['' then
        (case skip_ws cs of
           [] \<Rightarrow> decode_error
         | d # ds \<Rightarrow>
             if d = CHR '']'' then Inr (PyList [], ds)
             else (case scan_array n (d # ds) of
                     Inl e \<Rightarrow> Inl e
                   | Inr (vs, r) \<Rightarrow> Inr (PyList vs, r)))
      else if take 4 (c # cs) = ''null'' then Inr (PyNone, drop 4 (c # cs))
      else if take 4 (c # cs) = ''true'' then Inr (PyBool True, drop 4 (c # cs))
      else if take 5 (c # cs) = ''false'' then Inr (PyBool False, drop 5 (c # cs))
      else (case scan_int (c # cs) of Inl e \<Rightarrow> Inl e | Inr (i, r) \<Rightarrow> Inr (PyInt i, r)))"
| "scan_array 0 s = decode_error"
| "scan_array (Suc n) s =
     (case scan_value n s of
        Inl e \<Rightarrow> Inl e
      | Inr (v, r) \<Rightarrow>
          (case skip_ws r of
             [] \<Rightarrow> decode_error
           | d # ds \<Rightarrow>
               if d = CHR '']'' then Inr ([v], ds)
               else if d = CHR '','' then
                 (case scan_array n (skip_ws ds) of
                    Inl e \<Rightarrow> Inl e
                  | Inr (vs, r') \<Rightarrow> Inr (v # vs, r'))
               else decode_error))"
| "scan_object 0 s = decode_error"
| "scan_object (Suc n) s =
     (case s of
        [] \<Rightarrow> decode_error
      | c # cs \<Rightarrow>
          if c \<noteq> DQ then decode_error
          else (case scan_string cs of
                  None \<Rightarrow> decode_error
                | Some (k, r) \<Rightarrow>
                    (case skip_ws r of
                       [] \<Rightarrow> decode_error
                     | d # ds \<Rightarrow>
                         if d \<noteq> CHR '':'' then decode_error
                         else (case scan_value n (skip_ws ds) of
                                 Inl e \<Rightarrow> Inl e
                               | Inr (v, r2) \<Rightarrow>
                                   (case skip_ws r2 of
                                      [] \<Rightarrow> decode_error
                                    | e # es \<Rightarrow>
                                        if e = CHR ''}'' then Inr ([(k, v)], es)
                                        else if e = CHR '','' then
                                          (case scan_object n (skip_ws es) of
                                             Inl e' \<Rightarrow> Inl e'
                                           | Inr (kvs, r') \<Rightarrow> Inr ((k, v) # kvs, r'))
                                        else decode_error)))))"

definition json_loads :: "string \<Rightarrow> exn + pyval" where
  "json_loads s =
     (case scan_value (2 * length s + 2) (skip_ws s) of
        Inl e \<Rightarrow> Inl e
      | Inr (v, r) \<Rightarrow>
          if skip_ws r = [] then Inr v else Inl (Exn JSONDecodeError ''Extra data''))"

text \<open>An integer literal of 4301 digits.\<close>

definition long_digits :: string where
  "long_digits = replicate 4301 (CHR ''1'')"

section \<open>TextAnalyzer\<close>

record text_analyzer =
  style_guide :: "(string, string) pydict"

subsection \<open>load_style_guide\<close>

text \<open>
  PyPDF2 is outside the repository: an uploaded file is represented by what
  \<open>PdfReader(pdf_file)\<close> does with it, raising or giving pages, each page by what its
  \<open>extract_text()\<close> does.
\<close>

type_synonym pdf_file = "exn + (exn + string) list"

fun extract_pages :: "string \<Rightarrow> (exn + string) list \<Rightarrow> exn + string" where
  "extract_pages full_text [] = Inr full_text"
| "extract_pages full_text (page # pages) =
     (case page of
        Inl e \<Rightarrow> Inl e
      | Inr t \<Rightarrow> extract_pages (full_text @ t @ [NL]) pages)"

definition extract_pdf_text :: "pdf_file \<Rightarrow> exn + string" where
  "extract_pdf_text pdf =
     (case pdf of Inl e \<Rightarrow> Inl e | Inr pages \<Rightarrow> extract_pages [] pages)"

text \<open>The result is what the call returns or raises, with the analyzer after the call.\<close>

definition load_style_guide ::
  "text_analyzer \<Rightarrow> pdf_file \<Rightarrow> (exn + (string, string) pydict) \<times> text_analyzer" where
  "load_style_guide self pdf =
     (case extract_pdf_text pdf of
        Inl e \<Rightarrow> (Inl e, self)
      | Inr text \<Rightarrow>
          (case process_style_guide text of
             Inl e \<Rightarrow> (Inl e, self)
           | Inr sg \<Rightarrow> (Inr sg, self\<lparr>style_guide := sg\<rparr>)))"

subsection \<open>The remote call\<close>

text \<open>
  \<open>client.messages.create\<close> is a parameter \<open>create\<close>: it raises or gives the response,
  of which the functions read \<open>content\<close> only.
\<close>

record request =
  model :: string
  max_tokens :: nat
  temperature :: rat
  messages :: "(string \<times> string) list"

subsection \<open>analyze_text\<close>

text \<open>Lines 76 to 93: the style-guide context and the prompt.\<close>

definition analysis_prompt :: "(string, string) pydict \<Rightarrow> string \<Rightarrow> string \<Rightarrow> string" where
  "analysis_prompt sg text content_type =
     (let style_guide_context =
            (if sg \<noteq> []
             then py_join [NL] (map (\<lambda>(k, v). k @ '': '' @ py_slice_to 300 v @ ''...'') sg)
             else ''No style guide loaded.'')
      in [NL]
      @ ''        Analyze this '' @ content_type @ '' content and respond with ONLY a JSON object in the following structure:'' @ [NL]
      @ ''        {'' @ [NL]
      @ ''            '' @ [DQ] @ ''overall_assessment'' @ [DQ] @ '': '' @ [DQ] @ ''A detailed evaluation of the overall content quality and effectiveness'' @ [DQ] @ '','' @ [NL]
      @ ''            '' @ [DQ] @ ''style_evaluation'' @ [DQ] @ '': '' @ [DQ] @ ''An analysis of the writing style, tone, and clarity'' @ [DQ] @ '','' @ [NL]
      @ ''            '' @ [DQ] @ ''suggestions'' @ [DQ] @ '': ['' @ [DQ] @ ''Specific suggestion 1'' @ [DQ] @ '', '' @ [DQ] @ ''Specific suggestion 2'' @ [DQ] @ '', '' @ [DQ] @ ''Specific suggestion 3'' @ [DQ] @ '']'' @ [NL]
      @ ''        }'' @ [NL]
      @ [NL]
      @ ''        Content to analyze:'' @ [NL]
      @ ''        '' @ text @ [NL]
      @ [NL]
      @ ''        Style Guidelines:'' @ [NL]
      @ ''        '' @ style_guide_context @ [NL]
      @ [NL]
      @ ''        Remember: Respond with only the JSON object, no additional text or explanation.'' @ [NL]
      @ ''        '')"

text \<open>The pattern of line 111 matches from the first opening brace to the last closing one.\<close>

definition brace_span :: "string \<Rightarrow> string option" where
  "brace_span s =
     (case dropWhile (\<lambda>c. c \<noteq> CHR ''{'') s of
        [] \<Rightarrow> None
      | c # cs \<Rightarrow>
          (case rev (dropWhile (\<lambda>c. c \<noteq> CHR ''}'') (rev cs)) of
             [] \<Rightarrow> None
           | d # ds \<Rightarrow> Some (c # d # ds)))"

definition formatting_fallback :: "string \<Rightarrow> pyval" where
  "formatting_fallback text =
     PyDict
       [(''overall_assessment'', PyStr ''Analysis completed with formatting issues.''),
        (''style_evaluation'', PyStr (''Content analyzed: '' @ py_slice_to 100 text @ ''...'')),
        (''suggestions'',
         PyList
           [PyStr ''Consider reviewing the content for clarity'',
            PyStr ''Ensure all key points are clearly communicated'',
            PyStr ''Review formatting and structure''])]"

definition error_result :: "exn \<Rightarrow> pyval" where
  "error_result e =
     PyDict
       [(''overall_assessment'', PyStr (''Analysis error: '' @ message e)),
        (''style_evaluation'', PyStr ''Unable to complete style evaluation''),
        (''suggestions'',
         PyList
           [PyStr ''Please try again in a moment'',
            PyStr ''Consider breaking content into smaller sections''])]"

text \<open>The arguments of the call of lines 96 to 101.\<close>

definition analysis_request :: "string \<Rightarrow> request" where
  "analysis_request prompt =
     \<lparr>model = ''claude-3-5-sonnet-20241022'', max_tokens = 1500, temperature = 0,
      messages = [(''user'', prompt)]\<rparr>"

text \<open>The body of the \<open>try\<close> of lines 95 to 128: \<open>Inl\<close> is an exception leaving it.\<close>

definition analyze_try ::
  "(request \<Rightarrow> exn + payload) \<Rightarrow> (string \<Rightarrow> exn + pyval) \<Rightarrow> string \<Rightarrow> string
     \<Rightarrow> exn + pyval" where
  "analyze_try create loads prompt text =
     (case create (analysis_request prompt) of
        Inl e \<Rightarrow> Inl e
      | Inr content \<Rightarrow>
          (let response_text = py_str content
           in case loads response_text of
                Inr v \<Rightarrow> Inr v
              | Inl e \<Rightarrow>
                  if kind e \<noteq> JSONDecodeError then Inl e
                  else (case brace_span response_text of
                          None \<Rightarrow> Inr (formatting_fallback text)
                        | Some json_str \<Rightarrow>
                            (case loads json_str of
                               Inr v \<Rightarrow> Inr v
                             | Inl e' \<Rightarrow>
                                 if kind e' = JSONDecodeError \<or> kind e' = AttributeError
                                 then Inr (formatting_fallback text)
                                 else Inl e'))))"

definition analyze_text ::
  "(request \<Rightarrow> exn + payload) \<Rightarrow> (string \<Rightarrow> exn + pyval) \<Rightarrow> text_analyzer
     \<Rightarrow> string \<Rightarrow> string \<Rightarrow> exn + pyval" where
  "analyze_text create loads self text content_type =
     (case analyze_try create loads (analysis_prompt (style_guide self) text content_type) text of
        Inr v \<Rightarrow> Inr v
      | Inl e \<Rightarrow> Inr (error_result e))"

text \<open>The declared result: the three fields, two strings and a sequence of strings.\<close>

fun is_py_str :: "pyval \<Rightarrow> bool" where
  "is_py_str (PyStr s) = True"
| "is_py_str v = False"

fun is_py_str_list :: "pyval \<Rightarrow> bool" where
  "is_py_str_list (PyList vs) = list_all is_py_str vs"
| "is_py_str_list v = False"

definition field_is :: "(pyval \<Rightarrow> bool) \<Rightarrow> (string, pyval) pydict \<Rightarrow> string \<Rightarrow> bool" where
  "field_is P d k = (case map_of d k of None \<Rightarrow> False | Some v \<Rightarrow> P v)"

fun analysis_result_shape :: "pyval \<Rightarrow> bool" where
  "analysis_result_shape (PyDict d) =
     (field_is is_py_str d ''overall_assessment'' \<and> field_is is_py_str d ''style_evaluation''
      \<and> field_is is_py_str_list d ''suggestions'')"
| "analysis_result_shape v = False"

subsection \<open>generate_text\<close>

text \<open>Lines 142 to 156.\<close>

definition generation_prompt :: "(string, string) pydict \<Rightarrow> string \<Rightarrow> string \<Rightarrow> string" where
  "generation_prompt sg prompt content_type =
     (let style_guide_context =
            (if sg \<noteq> []
             then py_join [NL] (map (\<lambda>(k, v). k @ '': '' @ py_slice_to 300 v @ ''...'') sg)
             else ''No style guide loaded.'')
      in [NL]
      @ ''        Generate '' @ content_type @ '' content following these guidelines:'' @ [NL]
      @ ''        '' @ [NL]
      @ ''        '' @ style_guide_context @ [NL]
      @ ''        '' @ [NL]
      @ ''        Requirements:'' @ [NL]
      @ ''        - Professional and clear writing style'' @ [NL]
      @ ''        - Proper formatting for '' @ content_type @ [NL]
      @ ''        - Direct and concise communication'' @ [NL]
      @ ''        '' @ [NL]
      @ ''        Content prompt:'' @ [NL]
      @ ''        '' @ prompt @ [NL]
      @ ''        '')"

text \<open>The arguments of the call of lines 159 to 164.\<close>

definition generation_request :: "string \<Rightarrow> request" where
  "generation_request prompt =
     \<lparr>model = ''claude-3-5-sonnet-20241022'', max_tokens = 1500, temperature = 7 / 10,
      messages = [(''user'', prompt)]\<rparr>"

text \<open>
  The second component is what the call hands to \<open>st.error\<close>, the page's error display.
\<close>

definition generate_text ::
  "(request \<Rightarrow> exn + payload) \<Rightarrow> text_analyzer \<Rightarrow> string \<Rightarrow> string
     \<Rightarrow> (exn + string) \<times> string list" where
  "generate_text create self prompt content_type =
     (case create (generation_request (generation_prompt (style_guide self) prompt content_type)) of
        Inr content \<Rightarrow> (Inr (clean_text content), [])
      | Inl e \<Rightarrow>
          (Inr ''Content generation failed. Please try again.'',
           [''Generation error: '' @ message e]))"

text \<open>The context rendering in the words of the specification.\<close>

definition spec_style_context :: "(string, string) pydict \<Rightarrow> string" where
  "spec_style_context sg =
     (if sg = [] then ''No style guide loaded.''
      else py_join [NL] (map (\<lambda>section. fst section @ '': '' @ take 300 (snd section) @ ''...'') sg))"

section \<open>Properties of the sectionizer\<close>

subsection \<open>Strings and dictionaries\<close>

lemma py_split_not_Nil: "py_split sep s \<noteq> []"
  by (induction s) (auto split: list.splits)

lemma py_join_Cons: "ls \<noteq> [] \<Longrightarrow> py_join sep (l # ls) = l @ sep @ py_join sep ls"
  by (cases ls) auto

lemma py_join_Cons_char:
  "py_join sep ((c # l) # ls) = c # py_join sep (l # ls)"
  by (cases ls) auto

lemma py_join_split: "py_join [sep] (py_split sep s) = s"
proof (induction s)
  case Nil
  show ?case by simp
next
  case (Cons c cs)
  show ?case
  proof (cases "c = sep")
    case True
    then show ?thesis using Cons py_split_not_Nil [of sep cs]
      by (simp add: py_join_Cons)
  next
    case False
    then show ?thesis using Cons py_split_not_Nil [of sep cs]
      by (auto split: list.splits simp: py_join_Cons_char)
  qed
qed

lemma map_of_dict_set: "map_of (dict_set k v d) = (map_of d)(k \<mapsto> v)"
  by (induction d) (auto simp: fun_eq_iff)

lemma dict_keys_dict_set:
  "dict_keys (dict_set k v d) = (if k \<in> set (dict_keys d) then dict_keys d else dict_keys d @ [k])"
  by (induction d) (auto simp: dict_keys_def)

lemma dict_set_keys: "fst ` set (dict_set k v d) = insert k (fst ` set d)"
  by (induction d) auto

lemma dict_set_append_new:
  "k \<notin> fst ` set d \<Longrightarrow> dict_set k v d = d @ [(k, v)]"
  by (induction d) auto

lemma dict_set_last:
  "k \<notin> fst ` set d \<Longrightarrow> dict_set k v (d @ [(k, w)]) = d @ [(k, v)]"
  by (induction d) auto

lemma dict_get_last:
  "k \<notin> fst ` set d \<Longrightarrow> dict_get k (d @ [(k, w)]) = Inr w"
  by (induction d) (auto simp: dict_get_def)

lemma dict_get_present:
  "k \<in> fst ` set d \<Longrightarrow> \<exists>v. dict_get k d = Inr v"
  by (auto simp: dict_get_def map_of_eq_None_iff split: option.splits)

text \<open>The loop never raises: the current section is always a key of the dictionary.\<close>

lemma scan_line_total:
  assumes "cur \<in> fst ` set secs"
  shows "\<exists>cur' secs'. scan_line (cur, secs) line = Inr (cur', secs') \<and> cur' \<in> fst ` set secs'
           \<and> fst ` set secs \<subseteq> fst ` set secs'"
proof (cases "is_header_line line")
  case True
  show ?thesis using True by (auto simp: scan_line_def Let_def dict_set_keys)
next
  case False
  from dict_get_present [OF assms] obtain body where b: "dict_get cur secs = Inr body" by blast
  show ?thesis using False b assms by (auto simp: scan_line_def dict_set_keys)
qed

lemma scan_lines_total:
  "cur \<in> fst ` set secs \<Longrightarrow>
   \<exists>cur' secs'. scan_lines (cur, secs) ls = Inr (cur', secs') \<and> cur' \<in> fst ` set secs'
           \<and> fst ` set secs \<subseteq> fst ` set secs'"
proof (induction ls arbitrary: cur secs)
  case Nil
  then show ?case by simp
next
  case (Cons l ls)
  from scan_line_total [OF Cons.prems, of l] obtain c1 s1 where
    1: "scan_line (cur, secs) l = Inr (c1, s1)" "c1 \<in> fst ` set s1" "fst ` set secs \<subseteq> fst ` set s1"
    by blast
  from Cons.IH [OF 1(2)] obtain c2 s2 where
    2: "scan_lines (c1, s1) ls = Inr (c2, s2)" "c2 \<in> fst ` set s2" "fst ` set s1 \<subseteq> fst ` set s2"
    by blast
  show ?case using 1 2 by auto
qed

lemma scan_lines_no_header:
  "\<forall>l \<in> set ls. \<not> is_header_line l \<Longrightarrow> k \<notin> fst ` set d \<Longrightarrow>
   scan_lines (k, d @ [(k, body)]) ls = Inr (k, d @ [(k, body @ ls)])"
proof (induction ls arbitrary: body)
  case Nil
  then show ?case by simp
next
  case (Cons l ls)
  then show ?case by (simp add: scan_line_def dict_get_last dict_set_last)
qed


subsection \<open>The header test\<close>

lemma isupper_scan_iff:
  "isupper_scan cased s \<longleftrightarrow>
     (\<forall>c \<in> set s. \<not> py_islower_char c) \<and> (cased \<or> (\<exists>c \<in> set s. py_isupper_char c))"
  by (induction s arbitrary: cased) (auto simp: py_istitle_char_def)

lemma py_isupper_iff:
  "py_isupper s \<longleftrightarrow> (\<forall>c \<in> set s. \<not> py_islower_char c) \<and> (\<exists>c \<in> set s. py_isupper_char c)"
  by (simp add: py_isupper_def isupper_scan_iff)

lemma upper_not_lower: "py_isupper_char c \<Longrightarrow> \<not> py_islower_char c"
  by (auto simp: py_isupper_char_def py_islower_char_def Let_def)

lemma space_not_cased: "py_isspace_char c \<Longrightarrow> \<not> py_isupper_char c \<and> \<not> py_islower_char c"
  by (auto simp: py_isupper_char_def py_islower_char_def py_isspace_char_def Let_def)

lemma in_set_dropWhile_or: "x \<in> set xs \<Longrightarrow> x \<in> set (dropWhile P xs) \<or> P x"
  by (induction xs) (auto split: if_splits)

lemma set_py_strip_subset: "set (py_strip s) \<subseteq> set s"
  by (auto simp: py_strip_def dest!: set_dropWhileD)

lemma in_set_py_strip_or: "c \<in> set s \<Longrightarrow> c \<in> set (py_strip s) \<or> py_isspace_char c"
  unfolding py_strip_def
  using in_set_dropWhile_or [of c s py_isspace_char]
        in_set_dropWhile_or [of c "rev (dropWhile py_isspace_char s)" py_isspace_char]
  by auto

lemma py_isupper_strip: "py_isupper (py_strip s) = py_isupper s"
  unfolding py_isupper_iff
  using set_py_strip_subset [of s] in_set_py_strip_or [of _ s] space_not_cased
  by blast

lemma py_endswith_colon: "py_endswith t '':'' \<longleftrightarrow> t \<noteq> [] \<and> last t = CHR '':''"
proof (cases t rule: rev_cases)
  case Nil
  then show ?thesis by (simp add: py_endswith_def)
next
  case (snoc ys y)
  then show ?thesis by (auto simp: py_endswith_def)
qed

lemma is_header_line_spec: "is_header_line line \<longleftrightarrow> spec_header_line line"
proof -
  have "py_isupper (py_strip line) \<longleftrightarrow>
     (\<exists>c \<in> set (py_strip line). spec_is_letter c) \<and>
     (\<forall>c \<in> set (py_strip line). spec_is_letter c \<longrightarrow> py_isupper_char c)"
    unfolding py_isupper_iff spec_is_letter_def using upper_not_lower by blast
  then show ?thesis
    by (simp add: is_header_line_def spec_header_line_def Let_def py_endswith_colon
        py_isupper_strip)
qed

subsection \<open>What the loop keeps\<close>

lemma dict_set_values: "snd ` set (dict_set k v d) \<subseteq> insert v (snd ` set d)"
  by (induction d) auto

lemma dict_get_value: "dict_get k d = Inr v \<Longrightarrow> v \<in> snd ` set d"
  by (auto simp: dict_get_def split: option.splits dest!: map_of_SomeD intro: rev_image_eqI)

lemma dict_set_bodies:
  assumes "\<forall>b \<in> snd ` set d. set b \<subseteq> A" and "set v \<subseteq> A"
  shows "\<forall>b \<in> snd ` set (dict_set k v d). set b \<subseteq> A"
proof
  fix b assume "b \<in> snd ` set (dict_set k v d)"
  with dict_set_values [of k v d] have "b = v \<or> b \<in> snd ` set d" by blast
  with assms show "set b \<subseteq> A" by blast
qed

lemma scan_line_bodies:
  assumes "scan_line (cur, secs) l = Inr (cur', secs')"
    and "\<forall>b \<in> snd ` set secs. set b \<subseteq> A"
    and "\<not> is_header_line l \<longrightarrow> l \<in> A"
  shows "\<forall>b \<in> snd ` set secs'. set b \<subseteq> A"
proof (cases "is_header_line l")
  case True
  with assms(1) have "secs' = dict_set (header_name l) [] secs"
    by (auto simp: scan_line_def Let_def)
  then show ?thesis using dict_set_bodies [OF assms(2), of "[]"] by simp
next
  case False
  with assms(1) obtain body where b: "dict_get cur secs = Inr body"
    "secs' = dict_set cur (body @ [l]) secs"
    by (auto simp: scan_line_def split: sum.splits)
  from dict_get_value [OF b(1)] assms(2) have "set body \<subseteq> A" by blast
  with False assms(3) have "set (body @ [l]) \<subseteq> A" by simp
  from dict_set_bodies [OF assms(2) this, of cur] show ?thesis by (simp only: b(2))
qed

lemma scan_lines_bodies:
  "scan_lines (cur, secs) ls = Inr (cur', secs') \<Longrightarrow>
   \<forall>b \<in> snd ` set secs. set b \<subseteq> A \<Longrightarrow>
   \<forall>l \<in> set ls. \<not> is_header_line l \<longrightarrow> l \<in> A \<Longrightarrow>
   \<forall>b \<in> snd ` set secs'. set b \<subseteq> A"
proof (induction ls arbitrary: cur secs)
  case Nil
  then show ?case by simp
next
  case (Cons l ls)
  from Cons.prems(1) obtain c1 s1 where
    1: "scan_line (cur, secs) l = Inr (c1, s1)" and 2: "scan_lines (c1, s1) ls = Inr (cur', secs')"
    by (auto split: sum.splits)
  have "\<forall>b \<in> snd ` set s1. set b \<subseteq> A"
    using scan_line_bodies [OF 1 Cons.prems(2)] Cons.prems(3) by simp
  from Cons.IH [OF 2 this] Cons.prems(3) show ?case by simp
qed

lemma header_name_fresh:
  assumes "n \<notin> set (map header_name (filter is_header_line ls))"
    and "l \<in> set ls" and "is_header_line l"
  shows "header_name l \<noteq> n"
proof
  assume eq: "header_name l = n"
  from assms(2,3) have "l \<in> set (filter is_header_line ls)" by simp
  then have "header_name l \<in> header_name ` set (filter is_header_line ls)" by (rule imageI)
  with eq assms(1) show False by (simp only: set_map)
qed

subsection \<open>Bodies and lines\<close>

lemma concat_dict_set_empty:
  "\<not> section_holds_line k d \<Longrightarrow> concat (map snd (dict_set k [] d)) = concat (map snd d)"
  by (induction d) (auto simp: section_holds_line_def)

lemma concat_dict_set_append:
  "dict_get k d = Inr body \<Longrightarrow> \<not> later_section_holds_line k d \<Longrightarrow>
   concat (map snd (dict_set k (body @ [l]) d)) = concat (map snd d) @ [l]"
proof (induction d)
  case Nil
  then show ?case by (simp add: dict_get_def)
next
  case (Cons p d)
  show ?case
  proof (cases "fst p = k")
    case True
    with Cons.prems have b: "snd p = body" and e: "\<forall>x \<in> set d. snd x = []"
      by (auto simp: dict_get_def later_section_holds_line_def list_all_iff)
    from e have c0: "concat (map snd d) = []" by (induction d) auto
    from True b show ?thesis by (simp add: c0 del: concat_eq_Nil_conv)
  next
    case False
    with Cons.prems have "dict_get k d = Inr body" "\<not> later_section_holds_line k d"
      by (auto simp: dict_get_def later_section_holds_line_def)
    from Cons.IH [OF this] False show ?thesis by simp
  qed
qed

lemma order_kept_concat:
  "order_kept (cur, secs) ls \<Longrightarrow>
   \<exists>cur' secs'. scan_lines (cur, secs) ls = Inr (cur', secs') \<and>
      concat (map snd secs') = concat (map snd secs) @ filter (\<lambda>l. \<not> is_header_line l) ls"
proof (induction ls arbitrary: cur secs)
  case Nil
  then show ?case by simp
next
  case (Cons l ls)
  from Cons.prems obtain c1 s1 where
    step: "scan_line (cur, secs) l = Inr (c1, s1)" and rest: "order_kept (c1, s1) ls"
    by (auto split: sum.splits)
  from Cons.IH [OF rest] obtain c2 s2 where
    run: "scan_lines (c1, s1) ls = Inr (c2, s2)"
    and cc: "concat (map snd s2) = concat (map snd s1) @ filter (\<lambda>l. \<not> is_header_line l) ls"
    by blast
  have "concat (map snd s1) = concat (map snd secs) @ filter (\<lambda>l. \<not> is_header_line l) [l]"
  proof (cases "is_header_line l")
    case True
    with Cons.prems have "\<not> section_holds_line (header_name l) secs" by simp
    moreover from True step have "s1 = dict_set (header_name l) [] secs"
      by (auto simp: scan_line_def Let_def)
    ultimately show ?thesis using True by (simp add: concat_dict_set_empty)
  next
    case False
    with Cons.prems have nl: "\<not> later_section_holds_line cur secs" by simp
    from False step obtain body where b: "dict_get cur secs = Inr body"
      and s1: "s1 = dict_set cur (body @ [l]) secs"
      by (auto simp: scan_line_def split: sum.splits)
    from concat_dict_set_append [OF b nl] s1 False show ?thesis by simp
  qed
  with cc have "concat (map snd s2) = concat (map snd secs) @ filter (\<lambda>l. \<not> is_header_line l) (l # ls)"
    by simp
  with step run show ?case by simp
qed

lemma py_split_no_sep: "l \<in> set (py_split sep s) \<Longrightarrow> sep \<notin> set l"
proof (induction s arbitrary: l)
  case Nil
  then show ?case by simp
next
  case (Cons c cs)
  show ?case
  proof (cases "c = sep")
    case True
    with Cons show ?thesis by auto
  next
    case False
    with Cons.prems obtain x xs where p: "py_split sep cs = x # xs" and "l = c # x \<or> l \<in> set xs"
      using py_split_not_Nil [of sep cs] by (cases "py_split sep cs") auto
    with Cons.IH False show ?thesis by auto
  qed
qed

lemma py_split_line: "sep \<notin> set l \<Longrightarrow> py_split sep (l @ sep # s) = l # py_split sep s"
  by (induction l) auto

lemma py_split_single: "sep \<notin> set l \<Longrightarrow> py_split sep l = [l]"
  by (induction l) auto

lemma py_split_join:
  "g \<noteq> [] \<Longrightarrow> \<forall>l \<in> set g. sep \<notin> set l \<Longrightarrow> py_split sep (py_join [sep] g) = g"
proof (induction g)
  case Nil
  then show ?case by simp
next
  case (Cons l g)
  show ?case
  proof (cases g)
    case Nil
    with Cons.prems show ?thesis by (simp add: py_split_single)
  next
    case (Cons l' g')
    with Cons.prems Cons.IH have "py_split sep (py_join [sep] g) = g" by simp
    with Cons Cons.prems show ?thesis by (simp add: py_split_line)
  qed
qed

lemma nonempty_lines_split_join:
  assumes "\<forall>l \<in> set g. sep \<notin> set l"
  shows "filter (\<lambda>l. l \<noteq> []) (py_split sep (py_join [sep] g)) = filter (\<lambda>l. l \<noteq> []) g"
proof (cases "g = []")
  case True
  then show ?thesis by simp
next
  case False
  with assms show ?thesis by (simp add: py_split_join)
qed

lemma nonempty_body_lines:
  assumes "\<forall>l \<in> set (concat (map snd secs)). NL \<notin> set l"
  shows "filter (\<lambda>l. l \<noteq> []) (body_lines (map (\<lambda>(k, v). (k, py_join [NL] v)) secs))
         = filter (\<lambda>l. l \<noteq> []) (concat (map snd secs))"
  using assms
proof (induction secs)
  case Nil
  then show ?case by (simp add: body_lines_def)
next
  case (Cons p secs)
  obtain k v where p: "p = (k, v)" by (cases p)
  from Cons.prems p have v: "\<forall>l \<in> set v. NL \<notin> set l" by simp
  from Cons.prems have "\<forall>l \<in> set (concat (map snd secs)). NL \<notin> set l" by simp
  from Cons.IH [OF this] nonempty_lines_split_join [OF v] p show ?case
    by (simp add: body_lines_def)
qed

lemma sections_reconstruct:
  assumes "sections_grow_in_order text"
  shows "\<exists>sg groups. process_style_guide text = Inr sg
           \<and> map snd sg = map (py_join [NL]) groups
           \<and> concat groups = non_header_lines text
           \<and> filter (\<lambda>l. l \<noteq> []) (body_lines sg) = filter (\<lambda>l. l \<noteq> []) (non_header_lines text)"
proof -
  from assms have "order_kept (''General'', [(''General'', [])]) (py_split NL text)"
    by (simp add: sections_grow_in_order_def initial_scan_state_def)
  from order_kept_concat [OF this] obtain cur secs where
    run: "scan_lines (''General'', [(''General'', [])]) (py_split NL text) = Inr (cur, secs)"
    and cc: "concat (map snd secs) = non_header_lines text"
    by (auto simp: non_header_lines_def)
  let ?sg = "map (\<lambda>(k, v). (k, py_join [NL] v)) secs"
  have p: "process_style_guide text = Inr ?sg"
    using run by (simp add: process_style_guide_def initial_scan_state_def)
  have m: "map snd ?sg = map (py_join [NL]) (map snd secs)"
    by (simp add: case_prod_unfold)
  have "\<forall>l \<in> set (concat (map snd secs)). NL \<notin> set l"
    unfolding cc non_header_lines_def using py_split_no_sep [of _ NL "text"] by simp
  from nonempty_body_lines [OF this]
  have f: "filter (\<lambda>l. l \<noteq> []) (body_lines ?sg) = filter (\<lambda>l. l \<noteq> []) (non_header_lines text)"
    by (simp only: cc)
  from p m cc f show ?thesis by blast
qed

lemma order_kept_distinct:
  "distinct (map header_name (filter is_header_line ls)) \<Longrightarrow>
   \<forall>l \<in> set ls. is_header_line l \<longrightarrow> header_name l \<notin> insert cur (fst ` set d) \<Longrightarrow>
   cur \<notin> fst ` set d \<Longrightarrow>
   order_kept (cur, d @ [(cur, body)]) ls"
proof (induction ls arbitrary: cur d body)
  case Nil
  then show ?case by simp
next
  case (Cons l ls)
  have later: "\<not> later_section_holds_line cur (d @ [(cur, body)])"
    using Cons.prems(3) by (induction d) (auto simp: later_section_holds_line_def)
  show ?case
  proof (cases "is_header_line l")
    case True
    let ?n = "header_name l"
    let ?d = "d @ [(cur, body)]"
    from True Cons.prems(2) have new: "?n \<notin> fst ` set ?d" by auto
    then have "map_of ?d ?n = None" by (simp only: map_of_eq_None_iff not_False_eq_True)
    then have h: "\<not> section_holds_line ?n ?d"
      unfolding section_holds_line_def by (simp only: option.case simp_thms)
    have step: "scan_line (cur, ?d) l = Inr (?n, ?d @ [(?n, [])])"
      using True dict_set_append_new [OF new, of "[]"] by (simp add: scan_line_def Let_def)
    have a: "distinct (map header_name (filter is_header_line ls))"
      using Cons.prems(1) True by simp
    have nn: "?n \<notin> set (map header_name (filter is_header_line ls))"
      using Cons.prems(1) True by simp
    have "\<forall>l' \<in> set ls. is_header_line l' \<longrightarrow> header_name l' \<noteq> ?n"
      using header_name_fresh [OF nn] by blast
    then have b: "\<forall>l' \<in> set ls. is_header_line l' \<longrightarrow> header_name l' \<notin> insert ?n (fst ` set ?d)"
      using Cons.prems(2) by simp
    from Cons.IH [OF a b new, of "[]"] step True h show ?thesis by simp
  next
    case False
    have step: "scan_line (cur, d @ [(cur, body)]) l = Inr (cur, d @ [(cur, body @ [l])])"
      using False Cons.prems(3) by (simp add: scan_line_def dict_get_last dict_set_last)
    have a: "distinct (map header_name (filter is_header_line ls))"
      using Cons.prems(1) False by simp
    have b: "\<forall>l' \<in> set ls. is_header_line l' \<longrightarrow> header_name l' \<notin> insert cur (fst ` set d)"
      using Cons.prems(2) by simp
    from Cons.IH [OF a b Cons.prems(3), of "body @ [l]"] step False later show ?thesis by simp
  qed
qed

lemma distinct_names_grow_in_order:
  assumes "distinct (''General'' # header_names text)"
  shows "sections_grow_in_order text"
proof -
  have a: "distinct (map header_name (filter is_header_line (py_split NL text)))"
    using assms by (simp add: header_names_def)
  have nn: "''General'' \<notin> set (map header_name (filter is_header_line (py_split NL text)))"
    using assms by (simp add: header_names_def)
  have "\<forall>l \<in> set (py_split NL text). is_header_line l \<longrightarrow> header_name l \<noteq> ''General''"
    using header_name_fresh [OF nn] by blast
  then have b: "\<forall>l \<in> set (py_split NL text). is_header_line l \<longrightarrow>
             header_name l \<notin> insert ''General'' (fst ` set [])"
    by simp
  from order_kept_distinct [OF a b, of "[]"] show ?thesis
    by (simp add: sections_grow_in_order_def initial_scan_state_def)
qed

subsection \<open>Claims on the sectionizer\<close>

text \<open>
  Claim C6. For every text, \<open>process_style_guide\<close> returns a mapping, and the mapping has
  the key "General" (the empty text and texts with a header named "General" included).
  When no line of the text is a header line, the mapping returned is exactly
  \<open>{"General": text}\<close>.
\<close>

theorem general_section_always_present:
  "(\<exists>sg. process_style_guide text = Inr sg \<and> ''General'' \<in> set (dict_keys sg))
   \<and> ((\<forall>l \<in> set (py_split NL text). \<not> is_header_line l) \<longrightarrow>
        process_style_guide text = Inr [(''General'', text)])"
proof
  from scan_lines_total [of "''General''" "[(''General'', [])]" "py_split NL text"]
  obtain c s where "scan_lines initial_scan_state (py_split NL text) = Inr (c, s)"
     "''General'' \<in> fst ` set s"
    by (auto simp: initial_scan_state_def)
  then show "\<exists>sg. process_style_guide text = Inr sg \<and> ''General'' \<in> set (dict_keys sg)"
    by (force simp: process_style_guide_def dict_keys_def)
next
  show "(\<forall>l \<in> set (py_split NL text). \<not> is_header_line l) \<longrightarrow>
        process_style_guide text = Inr [(''General'', text)]"
  proof
    assume "\<forall>l \<in> set (py_split NL text). \<not> is_header_line l"
    from scan_lines_no_header [OF this, of "''General''" "[]" "[]"]
    show "process_style_guide text = Inr [(''General'', text)]"
      by (simp add: process_style_guide_def initial_scan_state_def py_join_split)
  qed
qed

theorem general_section_always_present_witness:
  "list_all (\<lambda>l. \<not> is_header_line l) (py_split NL (''be brief'' @ [NL] @ ''be kind''))
   \<and> process_style_guide (''be brief'' @ [NL] @ ''be kind'')
       = Inr [(''General'', ''be brief'' @ [NL] @ ''be kind'')]
   \<and> (\<exists>sg. process_style_guide (''General:'' @ [NL] @ ''x'') = Inr sg
          \<and> ''General'' \<in> set (dict_keys sg))"
proof -
  have h: "list_all (\<lambda>l. \<not> is_header_line l) (py_split NL (''be brief'' @ [NL] @ ''be kind''))"
    by code_simp
  then have h': "\<forall>l \<in> set (py_split NL (''be brief'' @ [NL] @ ''be kind'')). \<not> is_header_line l"
    by (simp only: list_all_iff)
  from general_section_always_present [of "''be brief'' @ [NL] @ ''be kind''"] h'
  have a: "process_style_guide (''be brief'' @ [NL] @ ''be kind'')
       = Inr [(''General'', ''be brief'' @ [NL] @ ''be kind'')]"
    by blast
  from general_section_always_present [of "''General:'' @ [NL] @ ''x''"]
  have b: "\<exists>sg. process_style_guide (''General:'' @ [NL] @ ''x'') = Inr sg
          \<and> ''General'' \<in> set (dict_keys sg)"
    by blast
  from h a b show ?thesis by blast
qed

text \<open>
  On texts of code points below U+0100 a line is a header line for the loop exactly when, trimmed, it has a letter and
  all its letters are uppercase (digits and punctuation are allowed, a line without a
  letter does not qualify), or, trimmed, it ends with a colon. On a header line the
  current section becomes the trimmed line without its trailing colons and that section
  starts empty, every other body staying as it was; any other line goes to the end of
  the current section's body. In the sections of a whole text no body holds a header
  line.
\<close>

theorem header_classification:
  "(is_header_line line \<longleftrightarrow> spec_header_line line)
   \<and> (spec_header_line line \<longrightarrow>
        scan_line (cur, secs) line
          = Inr (py_rstrip_chars '':'' (py_strip line),
                 dict_set (py_rstrip_chars '':'' (py_strip line)) [] secs)
        \<and> map_of (dict_set (py_rstrip_chars '':'' (py_strip line)) [] secs)
            = (map_of secs)(py_rstrip_chars '':'' (py_strip line) \<mapsto> []))
   \<and> (\<not> spec_header_line line \<longrightarrow> cur \<in> set (dict_keys secs) \<longrightarrow>
        (\<exists>body. map_of secs cur = Some body
           \<and> scan_line (cur, secs) line = Inr (cur, dict_set cur (body @ [line]) secs)))
   \<and> (\<exists>cur' secs'. scan_lines initial_scan_state (py_split NL text) = Inr (cur', secs')
          \<and> (\<forall>b \<in> snd ` set secs'. \<forall>l \<in> set b. \<not> spec_header_line l))"
proof (intro conjI impI)
  show "is_header_line line \<longleftrightarrow> spec_header_line line"
    by (rule is_header_line_spec)
next
  assume "spec_header_line line"
  then have "is_header_line line" by (simp add: is_header_line_spec)
  then show "scan_line (cur, secs) line
          = Inr (py_rstrip_chars '':'' (py_strip line),
                 dict_set (py_rstrip_chars '':'' (py_strip line)) [] secs)"
    by (simp add: scan_line_def header_name_def Let_def)
next
  show "map_of (dict_set (py_rstrip_chars '':'' (py_strip line)) [] secs)
            = (map_of secs)(py_rstrip_chars '':'' (py_strip line) \<mapsto> [])"
    by (rule map_of_dict_set)
next
  assume "\<not> spec_header_line line" and "cur \<in> set (dict_keys secs)"
  then have nh: "\<not> is_header_line line" and "cur \<in> fst ` set secs"
    by (simp_all add: is_header_line_spec dict_keys_def)
  then obtain body where "map_of secs cur = Some body"
    by (cases "map_of secs cur") (auto simp: map_of_eq_None_iff)
  with nh show "\<exists>body. map_of secs cur = Some body
           \<and> scan_line (cur, secs) line = Inr (cur, dict_set cur (body @ [line]) secs)"
    by (simp add: scan_line_def dict_get_def)
next
  from scan_lines_total [of "''General''" "[(''General'', [])]" "py_split NL text"]
  obtain c s where run: "scan_lines (''General'', [(''General'', [])]) (py_split NL text) = Inr (c, s)"
    by auto
  have "\<forall>b \<in> snd ` set s. set b \<subseteq> {l. \<not> is_header_line l}"
    by (rule scan_lines_bodies [OF run]) simp_all
  then have "\<forall>b \<in> snd ` set s. \<forall>l \<in> set b. \<not> spec_header_line l"
    by (auto simp: is_header_line_spec)
  with run show "\<exists>cur' secs'. scan_lines initial_scan_state (py_split NL text) = Inr (cur', secs')
          \<and> (\<forall>b \<in> snd ` set secs'. \<forall>l \<in> set b. \<not> spec_header_line l)"
    by (simp add: initial_scan_state_def)
qed

theorem header_classification_witness:
  "spec_header_line ''  STYLE 2::''
   \<and> scan_line (''General'', [(''General'', [''a''])]) ''  STYLE 2::''
       = Inr (''STYLE 2'', [(''General'', [''a'']), (''STYLE 2'', [])])
   \<and> \<not> spec_header_line ''Intro 1''
   \<and> scan_line (''General'', [(''General'', [''a''])]) ''Intro 1''
       = Inr (''General'', [(''General'', [''a'', ''Intro 1''])])"
proof -
  have h: "is_header_line ''  STYLE 2::''" by code_simp
  have n: "py_rstrip_chars '':'' (py_strip ''  STYLE 2::'') = ''STYLE 2''" by code_simp
  have nh: "\<not> is_header_line ''Intro 1''" by code_simp
  have k: "''General'' \<in> set (dict_keys [(''General'', [''a''])])" by (simp add: dict_keys_def)
  note A = header_classification [of "''  STYLE 2::''" "''General''" "[(''General'', [''a''])]" "[]"]
  note B = header_classification [of "''Intro 1''" "''General''" "[(''General'', [''a''])]" "[]"]
  from A h have a1: "spec_header_line ''  STYLE 2::''" by blast
  with A have a2: "scan_line (''General'', [(''General'', [''a''])]) ''  STYLE 2::''
       = Inr (py_rstrip_chars '':'' (py_strip ''  STYLE 2::''),
              dict_set (py_rstrip_chars '':'' (py_strip ''  STYLE 2::'')) [] [(''General'', [''a''])])"
    by blast
  from B nh have b1: "\<not> spec_header_line ''Intro 1''" by blast
  with B k obtain body where b2: "map_of [(''General'', [''a''])] ''General'' = Some body"
     "scan_line (''General'', [(''General'', [''a''])]) ''Intro 1''
        = Inr (''General'', dict_set ''General'' (body @ [''Intro 1'']) [(''General'', [''a''])])"
    by blast
  from b2(1) have "body = [''a'']" by simp
  with a1 a2 b1 b2(2) show ?thesis by (simp add: n)
qed

text \<open>
  Claim C1, as stated: the bodies of the sections, taken in the order of the mapping,
  give back exactly the non-header lines of the text in their order. It fails in two
  ways. A header that repeats the name of a section holding lines makes line 32 discard
  them: from the four lines \<open>A:\<close>, \<open>x\<close>, \<open>A:\<close>, \<open>y\<close> the mapping is
  \<open>{"General": "", "A": "y"}\<close> and the line \<open>x\<close> is in no body. And the join of line 36
  turns a section without lines into the body \<open>""\<close>, which reads as one empty line:
  from \<open>TONE\<close>, \<open>be kind\<close> the bodies hold the lines \<open>""\<close> and \<open>be kind\<close>, the text has
  the single non-header line \<open>be kind\<close>.
\<close>

theorem sectionize_reconstruct_counterexample:
  "process_style_guide (''A:'' @ [NL] @ ''x'' @ [NL] @ ''A:'' @ [NL] @ ''y'')
     = Inr [(''General'', []), (''A'', ''y'')]
   \<and> non_header_lines (''A:'' @ [NL] @ ''x'' @ [NL] @ ''A:'' @ [NL] @ ''y'') = [''x'', ''y'']
   \<and> body_lines [(''General'', []), (''A'', ''y'')] = [[], ''y'']
   \<and> ''x'' \<notin> set (body_lines [(''General'', []), (''A'', ''y'')])
   \<and> process_style_guide (''TONE'' @ [NL] @ ''be kind'')
     = Inr [(''General'', []), (''TONE'', ''be kind'')]
   \<and> non_header_lines (''TONE'' @ [NL] @ ''be kind'') = [''be kind'']
   \<and> body_lines [(''General'', []), (''TONE'', ''be kind'')] = [[], ''be kind'']
   \<and> body_lines [(''General'', []), (''TONE'', ''be kind'')]
       \<noteq> non_header_lines (''TONE'' @ [NL] @ ''be kind'')"
  by code_simp

text \<open>
  Claim C1, amended: take a text in which no header line names a section that already
  holds a line and no line is added to a section standing, in the mapping, before a
  section that holds a line (every text whose header names are pairwise different and
  not "General" is one). Then the bodies that \<open>process_style_guide\<close> returns are, in
  the order of the mapping, the newline joins of consecutive groups of the non-header
  lines, and the groups one after the other are exactly the non-header lines in their
  original order; so the non-empty lines of the returned bodies, in the order of the
  mapping, are exactly the non-empty non-header lines of the text in their order.
\<close>

theorem sectionize_reconstructs_lines:
  "(sections_grow_in_order text \<longrightarrow>
      (\<exists>sg groups. process_style_guide text = Inr sg
         \<and> map snd sg = map (py_join [NL]) groups
         \<and> concat groups = non_header_lines text
         \<and> filter (\<lambda>l. l \<noteq> []) (body_lines sg)
             = filter (\<lambda>l. l \<noteq> []) (non_header_lines text)))
   \<and> (distinct (''General'' # header_names text) \<longrightarrow> sections_grow_in_order text)"
  using sections_reconstruct distinct_names_grow_in_order by blast

theorem sectionize_reconstructs_lines_witness:
  "sections_grow_in_order
     (''intro'' @ [NL] @ ''TONE'' @ [NL] @ ''be kind'' @ [NL] @ ''Format:'' @ [NL] @ ''short'')
   \<and> process_style_guide
       (''intro'' @ [NL] @ ''TONE'' @ [NL] @ ''be kind'' @ [NL] @ ''Format:'' @ [NL] @ ''short'')
     = Inr [(''General'', ''intro''), (''TONE'', ''be kind''), (''Format'', ''short'')]
   \<and> filter (\<lambda>l. l \<noteq> [])
        (body_lines [(''General'', ''intro''), (''TONE'', ''be kind''), (''Format'', ''short'')])
     = [''intro'', ''be kind'', ''short'']
   \<and> sections_grow_in_order (''A:'' @ [NL] @ ''A:'' @ [NL] @ ''x'')
   \<and> process_style_guide (''A:'' @ [NL] @ ''A:'' @ [NL] @ ''x'')
     = Inr [(''General'', []), (''A'', ''x'')]
   \<and> filter (\<lambda>l. l \<noteq> []) (body_lines [(''General'', []), (''A'', ''x'')]) = [''x'']"
proof -
  let ?T = "''intro'' @ [NL] @ ''TONE'' @ [NL] @ ''be kind'' @ [NL] @ ''Format:'' @ [NL] @ ''short''"
  let ?U = "''A:'' @ [NL] @ ''A:'' @ [NL] @ ''x''"
  have h: "sections_grow_in_order ?T" by code_simp
  have p: "process_style_guide ?T
             = Inr [(''General'', ''intro''), (''TONE'', ''be kind''), (''Format'', ''short'')]"
    by code_simp
  have n: "non_header_lines ?T = [''intro'', ''be kind'', ''short'']" by code_simp
  from sectionize_reconstructs_lines [of ?T] h obtain sg where
    "process_style_guide ?T = Inr sg"
    "filter (\<lambda>l. l \<noteq> []) (body_lines sg) = filter (\<lambda>l. l \<noteq> []) (non_header_lines ?T)"
    by blast
  with p n have a: "filter (\<lambda>l. l \<noteq> [])
        (body_lines [(''General'', ''intro''), (''TONE'', ''be kind''), (''Format'', ''short'')])
     = [''intro'', ''be kind'', ''short'']"
    by simp
  have h': "sections_grow_in_order ?U" by code_simp
  have p': "process_style_guide ?U = Inr [(''General'', []), (''A'', ''x'')]" by code_simp
  have n': "non_header_lines ?U = [''x'']" by code_simp
  from sectionize_reconstructs_lines [of ?U] h' obtain sg' where
    "process_style_guide ?U = Inr sg'"
    "filter (\<lambda>l. l \<noteq> []) (body_lines sg') = filter (\<lambda>l. l \<noteq> []) (non_header_lines ?U)"
    by blast
  with p' n' have b: "filter (\<lambda>l. l \<noteq> []) (body_lines [(''General'', []), (''A'', ''x'')]) = [''x'']"
    by simp
  from h p a h' p' b show ?thesis by blast
qed

section \<open>Properties of clean_text\<close>

subsection \<open>Stripping and replacing\<close>

lemma last_dropWhile_nonempty: "dropWhile P xs \<noteq> [] \<Longrightarrow> last (dropWhile P xs) = last xs"
  by (induction xs) (auto split: if_splits)

lemma strip_ends:
  fixes P :: "'a \<Rightarrow> bool"
  defines "r \<equiv> \<lambda>s. rev (dropWhile P (rev (dropWhile P s)))"
  shows "r s = [] \<or> (\<not> P (hd (r s)) \<and> \<not> P (last (r s)))"
proof (cases "r s = []")
  case True
  then show ?thesis by simp
next
  case False
  let ?t = "dropWhile P s"
  let ?u = "dropWhile P (rev ?t)"
  from False have u: "?u \<noteq> []" by (simp add: r_def)
  have t: "?t \<noteq> []"
  proof
    assume "?t = []"
    with u show False by simp
  qed
  have "last (r s) = hd ?u" using u by (simp add: r_def last_rev)
  then have a: "\<not> P (last (r s))" using hd_dropWhile [OF u] by simp
  have "hd (r s) = last ?u" using u by (simp add: r_def hd_rev)
  also have "\<dots> = last (rev ?t)" using u by (rule last_dropWhile_nonempty)
  also have "\<dots> = hd ?t" using t by (simp add: last_rev)
  finally have "\<not> P (hd (r s))" using hd_dropWhile [OF t] by simp
  with a show ?thesis by simp
qed

lemma strip_fixed:
  assumes "s = [] \<or> (\<not> P (hd s) \<and> \<not> P (last s))"
  shows "rev (dropWhile P (rev (dropWhile P s))) = s"
proof (cases "s = []")
  case True
  then show ?thesis by simp
next
  case False
  with assms have h: "\<not> P (hd s)" and l: "\<not> P (last s)" by simp_all
  from h False have 1: "dropWhile P s = s" by (simp add: dropWhile_eq_self_iff)
  from l False have "\<not> P (hd (rev s))" by (simp add: hd_rev)
  then have 2: "dropWhile P (rev s) = rev s" by (simp add: dropWhile_eq_self_iff)
  show ?thesis by (simp add: 1 2)
qed

lemma strip_length_le: "length (rev (dropWhile P (rev (dropWhile P s)))) \<le> length s"
proof -
  have "length (dropWhile P (rev (dropWhile P s))) \<le> length (rev (dropWhile P s))"
    by (rule length_dropWhile_le)
  also have "\<dots> \<le> length s" by (simp add: length_dropWhile_le)
  finally show ?thesis by simp
qed

lemma dropWhile_shorter: "xs \<noteq> [] \<Longrightarrow> P (hd xs) \<Longrightarrow> length (dropWhile P xs) < length xs"
  by (cases xs) (auto simp: less_Suc_eq_le length_dropWhile_le)

lemma strip_length_less:
  assumes "s \<noteq> []" and "P (hd s) \<or> P (last s)"
  shows "length (rev (dropWhile P (rev (dropWhile P s)))) < length s"
proof (cases "P (hd s)")
  case True
  have "length (dropWhile P (rev (dropWhile P s))) \<le> length (rev (dropWhile P s))"
    by (rule length_dropWhile_le)
  also have "\<dots> < length s" using dropWhile_shorter [of s P] assms(1) True by simp
  finally show ?thesis by simp
next
  case False
  with assms have l: "P (last s)" by simp
  from False assms(1) have 1: "dropWhile P s = s" by (simp add: dropWhile_eq_self_iff)
  from l assms(1) have "P (hd (rev s))" by (simp add: hd_rev)
  with dropWhile_shorter [of "rev s" P] assms(1) show ?thesis by (simp add: 1)
qed

lemma sublist_strip: "sublist (rev (dropWhile P (rev (dropWhile P s)))) s"
proof -
  have "sublist (dropWhile P (rev (dropWhile P s))) (rev (dropWhile P s))" by simp
  then have "sublist (rev (dropWhile P (rev (dropWhile P s)))) (dropWhile P s)"
    by (simp add: sublist_rev_left)
  moreover have "sublist (dropWhile P s) s" by simp
  ultimately show ?thesis by (rule sublist_order.order.trans)
qed

lemma replace_scan_absent:
  "old \<noteq> [] \<Longrightarrow> \<not> sublist old s \<Longrightarrow> replace_scan old new s = s"
proof (induction s)
  case Nil
  then show ?case by simp
next
  case (Cons c cs)
  from Cons.prems(2) have np: "\<not> prefix old (c # cs)" and ns: "\<not> sublist old cs"
    by (simp_all add: sublist_Cons_right)
  have "take (length old) (c # cs) \<noteq> old"
  proof
    assume "take (length old) (c # cs) = old"
    then have "prefix old (c # cs)" using take_is_prefix [of "length old" "c # cs"] by simp
    with np show False by simp
  qed
  with Cons.IH [OF Cons.prems(1) ns] show ?case by simp
qed

lemma py_replace_absent:
  "old \<noteq> [] \<Longrightarrow> \<not> sublist old s \<Longrightarrow> py_replace old new s = s"
  by (simp add: py_replace_def replace_scan_absent)

subsection \<open>A second pass\<close>

lemma clean_text_marker_free:
  assumes "marker_free x"
  shows "clean_text (PStr x) = py_strip (py_strip_chars [DQ, SQ] x)"
proof -
  from assms have a: "py_replace textblock_open [] x = x"
    by (intro py_replace_absent) (simp_all add: marker_free_def textblock_open_def)
  from assms have b: "py_replace textblock_close [] x = x"
    by (intro py_replace_absent) (simp_all add: marker_free_def textblock_close_def)
  from assms have c: "py_replace [BS, CHR ''n''] [NL] x = x"
    by (intro py_replace_absent) (simp_all add: marker_free_def)
  from assms have d: "py_replace [BS, CHR ''r''] [CHR 0x0D] x = x"
    by (intro py_replace_absent) (simp_all add: marker_free_def)
  show ?thesis by (simp add: clean_text_def a b c d)
qed

lemma marker_free_sublist: "marker_free x \<Longrightarrow> sublist y x \<Longrightarrow> marker_free y"
  unfolding marker_free_def using sublist_order.order.trans by blast

lemma marker_free_clean_text:
  assumes "marker_free x"
  shows "marker_free (clean_text (PStr x))"
proof -
  have "sublist (py_strip (py_strip_chars [DQ, SQ] x)) (py_strip_chars [DQ, SQ] x)"
    unfolding py_strip_def by (rule sublist_strip)
  moreover have "sublist (py_strip_chars [DQ, SQ] x) x"
    unfolding py_strip_chars_def by (rule sublist_strip)
  ultimately have "sublist (clean_text (PStr x)) x"
    unfolding clean_text_marker_free [OF assms] by (rule sublist_order.order.trans)
  with assms show ?thesis by (rule marker_free_sublist)
qed

lemma clean_text_twice:
  assumes "marker_free x"
  shows "clean_text (PStr (clean_text (PStr x))) = clean_text (PStr x)
         \<longleftrightarrow> \<not> quote_ended (clean_text (PStr x))"
proof -
  let ?y = "clean_text (PStr x)"
  let ?q = "\<lambda>c. c \<in> set [DQ, SQ]"
  have y: "?y = py_strip (py_strip_chars [DQ, SQ] x)" by (rule clean_text_marker_free [OF assms])
  have yy: "clean_text (PStr ?y) = py_strip (py_strip_chars [DQ, SQ] ?y)"
    by (rule clean_text_marker_free [OF marker_free_clean_text [OF assms]])
  have ends: "?y = [] \<or> (\<not> py_isspace_char (hd ?y) \<and> \<not> py_isspace_char (last ?y))"
    unfolding y py_strip_def by (rule strip_ends)
  show ?thesis
  proof (cases "quote_ended ?y")
    case False
    then have "?y = [] \<or> (\<not> ?q (hd ?y) \<and> \<not> ?q (last ?y))"
      by (auto simp: quote_ended_def)
    then have 1: "py_strip_chars [DQ, SQ] ?y = ?y"
      unfolding py_strip_chars_def by (rule strip_fixed)
    have 2: "py_strip ?y = ?y"
      unfolding py_strip_def using ends by (rule strip_fixed)
    have "clean_text (PStr ?y) = ?y" by (simp only: yy 1 2)
    with False show ?thesis by simp
  next
    case True
    then have "?y \<noteq> []" "?q (hd ?y) \<or> ?q (last ?y)" by (auto simp: quote_ended_def)
    then have "length (py_strip_chars [DQ, SQ] ?y) < length ?y"
      unfolding py_strip_chars_def by (rule strip_length_less)
    moreover have "length (py_strip (py_strip_chars [DQ, SQ] ?y)) \<le> length (py_strip_chars [DQ, SQ] ?y)"
      unfolding py_strip_def by (rule strip_length_le)
    ultimately have "length (clean_text (PStr ?y)) < length ?y" by (simp only: yy)
    then have "clean_text (PStr ?y) \<noteq> ?y" by auto
    with True show ?thesis by simp
  qed
qed


text \<open>
  Claim C7, as stated: \<open>clean_text\<close> applied twice gives what it gives applied once, for a
  string without wrapper markers and without the escape sequences. It fails on the four
  characters space, double quote, \<open>a\<close>, double quote: line 55 removes the closing quote
  only (the string begins with a space), line 57 the space, so the first pass leaves a
  leading quote that the second pass removes.
\<close>

theorem clean_text_idempotent_counterexample:
  "marker_free [CHR '' '', DQ, CHR ''a'', DQ]
   \<and> clean_text (PStr [CHR '' '', DQ, CHR ''a'', DQ]) = [DQ, CHR ''a'']
   \<and> clean_text (PStr (clean_text (PStr [CHR '' '', DQ, CHR ''a'', DQ]))) = ''a''
   \<and> clean_text (PStr (clean_text (PStr [CHR '' '', DQ, CHR ''a'', DQ])))
       \<noteq> clean_text (PStr [CHR '' '', DQ, CHR ''a'', DQ])"
  by code_simp

text \<open>
  Claim C7, amended: for a string \<open>x\<close> without wrapper markers and without the escape
  sequences, \<open>clean_text(clean_text(x))\<close> equals \<open>clean_text(x)\<close> exactly when
  \<open>clean_text(x)\<close> neither begins nor ends with a quote character (single or double).
\<close>

theorem clean_text_idempotent_iff:
  assumes "marker_free x"
  shows "clean_text (PStr (clean_text (PStr x))) = clean_text (PStr x)
         \<longleftrightarrow> \<not> quote_ended (clean_text (PStr x))"
  using assms by (rule clean_text_twice)

theorem clean_text_idempotent_iff_witness:
  "marker_free ([DQ] @ '' Dear team, '' @ [DQ])
   \<and> clean_text (PStr ([DQ] @ '' Dear team, '' @ [DQ])) = ''Dear team,''
   \<and> \<not> quote_ended ''Dear team,''
   \<and> clean_text (PStr ''Dear team,'') = ''Dear team,''"
proof -
  have m: "marker_free ([DQ] @ '' Dear team, '' @ [DQ])" by code_simp
  have c: "clean_text (PStr ([DQ] @ '' Dear team, '' @ [DQ])) = ''Dear team,''" by code_simp
  have q: "\<not> quote_ended ''Dear team,''" by code_simp
  from clean_text_idempotent_iff [OF m]
  have "clean_text (PStr ''Dear team,'') = ''Dear team,'' \<longleftrightarrow> \<not> quote_ended ''Dear team,''"
    by (simp only: c)
  with q have "clean_text (PStr ''Dear team,'') = ''Dear team,''" by blast
  with m c q show ?thesis by blast
qed

section \<open>Properties of the analyzer\<close>

subsection \<open>The brace span\<close>


lemma brace_span_SomeI:
  assumes "CHR ''{'' \<notin> set pre" and "CHR ''}'' \<notin> set post"
  shows "brace_span (pre @ [CHR ''{''] @ mid @ [CHR ''}''] @ post) = Some ([CHR ''{''] @ mid @ [CHR ''}''])"
proof -
  let ?P = "\<lambda>c. c \<noteq> CHR ''{''" and ?Q = "\<lambda>c. c \<noteq> CHR ''}''"
  have 1: "dropWhile ?P (pre @ CHR ''{'' # mid @ CHR ''}'' # post) = CHR ''{'' # mid @ CHR ''}'' # post"
    using assms(1) by (simp add: dropWhile_append)
  have 2: "dropWhile ?Q (rev post @ CHR ''}'' # rev mid) = CHR ''}'' # rev mid"
    using assms(2) by (simp add: dropWhile_append)
  obtain d ds where e: "mid @ [CHR ''}''] = d # ds" by (cases mid) auto
  show ?thesis by (simp add: brace_span_def 1 2 e)
qed

subsection \<open>The scanner on an over-long integer\<close>

lemma is_digit_not_special:
  "is_digit d \<Longrightarrow> d \<noteq> DQ \<and> d \<noteq> CHR ''{'' \<and> d \<noteq> CHR ''['' \<and> d \<noteq> CHR ''n'' \<and> d \<noteq> CHR ''t''
     \<and> d \<noteq> CHR ''f'' \<and> d \<noteq> CHR ''-'' \<and> \<not> json_ws d"
  by (auto simp: is_digit_def json_ws_def)

lemma scan_int_too_long:
  assumes "ds \<noteq> []" and "\<forall>c \<in> set ds. is_digit c" and "hd ds \<noteq> CHR ''0''"
    and "4300 < length ds"
  shows "scan_int (ds @ ''}'') = Inl (int_too_long (length ds))"
proof -
  from assms(1) obtain d ds' where ds: "ds = d # ds'" by (cases ds) auto
  with assms(2,3) have d: "is_digit d" "d \<noteq> CHR ''0''" by simp_all
  have tw: "takeWhile is_digit (ds @ ''}'') = ds"
    using assms(2) by (simp add: takeWhile_append2 is_digit_def)
  have neg: "\<not> (ds @ ''}'' \<noteq> [] \<and> hd (ds @ ''}'') = CHR ''-'')"
    using ds is_digit_not_special [OF d(1)] by simp
  have t: "(case ds @ ''}'' of [] \<Rightarrow> [] | c # cs \<Rightarrow> if c = CHR ''0'' then [c] else takeWhile is_digit (ds @ ''}'')) = ds"
    using ds d(2) tw by simp
  have ff: "\<not> float_follows ''}''" by (simp add: float_follows_def)
  show ?thesis
    unfolding scan_int_def Let_def using neg assms(1,4) ff by (simp add: t)
qed

lemma scan_value_long_int:
  assumes "ds \<noteq> []" and "\<forall>c \<in> set ds. is_digit c" and "hd ds \<noteq> CHR ''0''"
    and "4300 < length ds"
  shows "scan_value (Suc n) (ds @ ''}'') = Inl (int_too_long (length ds))"
proof -
  from assms(1) obtain d ds' where ds: "ds = d # ds'" by (cases ds) auto
  with assms(2) have d: "is_digit d" by simp
  have "scan_value (Suc n) (d # (ds' @ ''}'')) =
          (case scan_int (d # (ds' @ ''}'')) of Inl e \<Rightarrow> Inl e | Inr (i, r) \<Rightarrow> Inr (PyInt i, r))"
    using is_digit_not_special [OF d] by simp
  then show ?thesis using scan_int_too_long [OF assms] ds by simp
qed

lemma json_loads_long_int:
  assumes "ds \<noteq> []" and "\<forall>c \<in> set ds. is_digit c" and "hd ds \<noteq> CHR ''0''"
    and "4300 < length ds"
  shows "json_loads (''{'' @ [DQ] @ ''a'' @ [DQ] @ '': '' @ ds @ ''}'') = Inl (int_too_long (length ds))"
proof -
  from assms(1) obtain d ds' where ds: "ds = d # ds'" by (cases ds) auto
  with assms(2) have d: "is_digit d" by simp
  have sk: "skip_ws (CHR '' '' # ds @ ''}'') = ds @ ''}''"
    using ds is_digit_not_special [OF d] by (simp add: skip_ws_def json_ws_def)
  obtain k where fuel: "2 * length (''{'' @ [DQ] @ ''a'' @ [DQ] @ '': '' @ ds @ ''}'') + 2 = Suc (Suc (Suc k))"
    by (simp add: numeral_eq_Suc)
  have dw: "dropWhile json_ws (ds @ ''}'') = ds @ ''}''"
    using ds is_digit_not_special [OF d] by simp
  have obj: "scan_object (Suc (Suc k)) (DQ # CHR ''a'' # DQ # CHR '':'' # CHR '' '' # ds @ ''}'')
               = Inl (int_too_long (length ds))"
    using scan_value_long_int [OF assms, of k] by (simp add: skip_ws_def json_ws_def dw)
  show ?thesis
    unfolding json_loads_def fuel using obj by (simp add: skip_ws_def json_ws_def)
qed

lemma json_loads_not_json: "json_loads (CHR ''x'' # t) = Inl (Exn JSONDecodeError ''Expecting value'')"
proof -
  obtain k where fuel: "2 * length (CHR ''x'' # t) + 2 = Suc k" by simp
  have "scan_int (CHR ''x'' # t) = decode_error"
    by (simp add: scan_int_def is_digit_def)
  then show ?thesis
    unfolding json_loads_def fuel by (simp add: skip_ws_def json_ws_def decode_error_def)
qed

lemma replicate_digits:
  "0 < n \<Longrightarrow> is_digit c \<Longrightarrow>
   replicate n c \<noteq> [] \<and> (\<forall>x \<in> set (replicate n c). is_digit x) \<and> hd (replicate n c) = c
     \<and> length (replicate n c) = n"
  by (cases n) auto

lemma long_digits_facts:
  "long_digits \<noteq> []" "\<forall>c \<in> set long_digits. is_digit c" "hd long_digits \<noteq> CHR ''0''"
  "4300 < length long_digits" "length long_digits = 4301"
proof -
  have d: "is_digit (CHR ''1'')" by (simp add: is_digit_def)
  have p: "(0::nat) < 4301" by simp
  note f = replicate_digits [OF p d, folded long_digits_def]
  from f show "long_digits \<noteq> []" by blast
  from f show "\<forall>c \<in> set long_digits. is_digit c" by blast
  from f have "hd long_digits = CHR ''1''" by blast
  then show "hd long_digits \<noteq> CHR ''0''" by simp
  from f show l: "length long_digits = 4301" by blast
  then show "4300 < length long_digits" by simp
qed

lemma str_nat_4301: "str_nat 4301 = ''4301''"
  by code_simp

subsection \<open>The paths through analyze_text\<close>

lemma analyze_text_remote_error:
  "create (analysis_request (analysis_prompt (style_guide self) text content_type)) = Inl e \<Longrightarrow>
   analyze_text create loads self text content_type = Inr (error_result e)"
  by (simp add: analyze_text_def analyze_try_def)

lemma analyze_text_tier1:
  "create (analysis_request (analysis_prompt (style_guide self) text content_type)) = Inr content \<Longrightarrow>
   loads (py_str content) = Inr v \<Longrightarrow>
   analyze_text create loads self text content_type = Inr v"
  by (simp add: analyze_text_def analyze_try_def)

lemma analyze_text_tier1_other:
  "create (analysis_request (analysis_prompt (style_guide self) text content_type)) = Inr content \<Longrightarrow>
   loads (py_str content) = Inl e \<Longrightarrow> kind e \<noteq> JSONDecodeError \<Longrightarrow>
   analyze_text create loads self text content_type = Inr (error_result e)"
  by (simp add: analyze_text_def analyze_try_def)

lemma analyze_text_tier2:
  "create (analysis_request (analysis_prompt (style_guide self) text content_type)) = Inr content \<Longrightarrow>
   loads (py_str content) = Inl e \<Longrightarrow> kind e = JSONDecodeError \<Longrightarrow>
   brace_span (py_str content) = Some js \<Longrightarrow> loads js = Inr v \<Longrightarrow>
   analyze_text create loads self text content_type = Inr v"
  by (simp add: analyze_text_def analyze_try_def)

lemma analyze_text_tier2_other:
  "create (analysis_request (analysis_prompt (style_guide self) text content_type)) = Inr content \<Longrightarrow>
   loads (py_str content) = Inl e \<Longrightarrow> kind e = JSONDecodeError \<Longrightarrow>
   brace_span (py_str content) = Some js \<Longrightarrow> loads js = Inl e' \<Longrightarrow>
   kind e' \<noteq> JSONDecodeError \<Longrightarrow> kind e' \<noteq> AttributeError \<Longrightarrow>
   analyze_text create loads self text content_type = Inr (error_result e')"
  by (simp add: analyze_text_def analyze_try_def)

lemma analyze_text_no_span:
  "create (analysis_request (analysis_prompt (style_guide self) text content_type)) = Inr content \<Longrightarrow>
   loads (py_str content) = Inl e \<Longrightarrow> kind e = JSONDecodeError \<Longrightarrow>
   brace_span (py_str content) = None \<Longrightarrow>
   analyze_text create loads self text content_type = Inr (formatting_fallback text)"
  by (simp add: analyze_text_def analyze_try_def)

lemma analyze_text_span_unparsed:
  "create (analysis_request (analysis_prompt (style_guide self) text content_type)) = Inr content \<Longrightarrow>
   loads (py_str content) = Inl e \<Longrightarrow> kind e = JSONDecodeError \<Longrightarrow>
   brace_span (py_str content) = Some js \<Longrightarrow> loads js = Inl e' \<Longrightarrow>
   kind e' = JSONDecodeError \<or> kind e' = AttributeError \<Longrightarrow>
   analyze_text create loads self text content_type = Inr (formatting_fallback text)"
  by (auto simp: analyze_text_def analyze_try_def)

lemma shape_formatting_fallback: "analysis_result_shape (formatting_fallback text)"
  by (simp add: formatting_fallback_def field_is_def)

lemma shape_error_result: "analysis_result_shape (error_result e)"
  by (simp add: error_result_def field_is_def)

subsection \<open>The style-guide context\<close>

lemma context_expression:
  "(if sg \<noteq> []
    then py_join [NL] (map (\<lambda>(k, v). k @ '': '' @ py_slice_to 300 v @ ''...'') sg)
    else ''No style guide loaded.'') = spec_style_context sg"
  by (simp add: spec_style_context_def py_slice_to_def case_prod_unfold)

lemma analysis_prompt_context:
  "analysis_prompt sg text content_type =
     ([NL]
        @ ''        Analyze this '' @ content_type @ '' content and respond with ONLY a JSON object in the following structure:'' @ [NL]
        @ ''        {'' @ [NL]
        @ ''            '' @ [DQ] @ ''overall_assessment'' @ [DQ] @ '': '' @ [DQ] @ ''A detailed evaluation of the overall content quality and effectiveness'' @ [DQ] @ '','' @ [NL]
        @ ''            '' @ [DQ] @ ''style_evaluation'' @ [DQ] @ '': '' @ [DQ] @ ''An analysis of the writing style, tone, and clarity'' @ [DQ] @ '','' @ [NL]
        @ ''            '' @ [DQ] @ ''suggestions'' @ [DQ] @ '': ['' @ [DQ] @ ''Specific suggestion 1'' @ [DQ] @ '', '' @ [DQ] @ ''Specific suggestion 2'' @ [DQ] @ '', '' @ [DQ] @ ''Specific suggestion 3'' @ [DQ] @ '']'' @ [NL]
        @ ''        }'' @ [NL]
        @ [NL]
        @ ''        Content to analyze:'' @ [NL]
        @ ''        '' @ text @ [NL]
        @ [NL]
        @ ''        Style Guidelines:'' @ [NL]
        @ ''        '')
     @ spec_style_context sg
     @ ([NL]
        @ [NL]
        @ ''        Remember: Respond with only the JSON object, no additional text or explanation.'' @ [NL]
        @ ''        '')"
  by (simp add: analysis_prompt_def context_expression Let_def)

lemma generation_prompt_context:
  "generation_prompt sg prompt content_type =
     ([NL]
        @ ''        Generate '' @ content_type @ '' content following these guidelines:'' @ [NL]
        @ ''        '' @ [NL]
        @ ''        '')
     @ spec_style_context sg
     @ ([NL]
        @ ''        '' @ [NL]
        @ ''        Requirements:'' @ [NL]
        @ ''        - Professional and clear writing style'' @ [NL]
        @ ''        - Proper formatting for '' @ content_type @ [NL]
        @ ''        - Direct and concise communication'' @ [NL]
        @ ''        '' @ [NL]
        @ ''        Content prompt:'' @ [NL]
        @ ''        '' @ prompt @ [NL]
        @ ''        '')"
  by (simp add: generation_prompt_def context_expression Let_def)

subsection \<open>Claims on the analyzer\<close>

text \<open>
  Claim C9. In the analysis prompt and in the generation prompt alike the style-guide
  context is the placeholder "No style guide loaded." for an empty style guide, and
  otherwise one line per section, the name, a colon and a space, the first 300
  characters of the body and three dots, the lines joined by newlines; the dots follow
  a body shorter than 300 characters too. Each prompt is a fixed text around that
  context: what stands before and after it does not depend on the style guide.
\<close>

theorem style_context_rendering:
  "(\<exists>pre post. \<forall>sg. analysis_prompt sg text content_type = pre @ spec_style_context sg @ post)
   \<and> (\<exists>pre post. \<forall>sg. generation_prompt sg prompt content_type = pre @ spec_style_context sg @ post)
   \<and> spec_style_context [] = ''No style guide loaded.''
   \<and> (style_guide self \<noteq> [] \<longrightarrow>
        spec_style_context (style_guide self)
          = py_join [NL] (map (\<lambda>(k, v). k @ '': '' @ take 300 v @ ''...'') (style_guide self)))
   \<and> (length v < 300 \<longrightarrow> spec_style_context [(k, v)] = k @ '': '' @ v @ ''...'')"
proof (intro conjI)
  show "\<exists>pre post. \<forall>sg. analysis_prompt sg text content_type = pre @ spec_style_context sg @ post"
    using analysis_prompt_context [of _ "text" content_type] by blast
  show "\<exists>pre post. \<forall>sg. generation_prompt sg prompt content_type = pre @ spec_style_context sg @ post"
    using generation_prompt_context [of _ prompt content_type] by blast
  show "spec_style_context [] = ''No style guide loaded.''"
    by (simp add: spec_style_context_def)
  show "style_guide self \<noteq> [] \<longrightarrow>
        spec_style_context (style_guide self)
          = py_join [NL] (map (\<lambda>(k, v). k @ '': '' @ take 300 v @ ''...'') (style_guide self))"
    by (simp add: spec_style_context_def case_prod_unfold)
  show "length v < 300 \<longrightarrow> spec_style_context [(k, v)] = k @ '': '' @ v @ ''...''"
    by (simp add: spec_style_context_def)
qed

theorem style_context_rendering_witness:
  "spec_style_context [(''General'', ''be brief'')] = ''General: be brief...''
   \<and> spec_style_context [(''General'', ''be brief''), (''TONE'', ''kind'')]
       = ''General: be brief...'' @ [NL] @ ''TONE: kind...''"
proof -
  have l: "length ''be brief'' < 300" by simp
  have n: "style_guide \<lparr>style_guide = [(''General'', ''be brief''), (''TONE'', ''kind'')]\<rparr> \<noteq> []"
    by simp
  from style_context_rendering [where v = "''be brief''" and k = "''General''"] l
  have a: "spec_style_context [(''General'', ''be brief'')] = ''General'' @ '': '' @ ''be brief'' @ ''...''"
    by blast
  from style_context_rendering
         [where self = "\<lparr>style_guide = [(''General'', ''be brief''), (''TONE'', ''kind'')]\<rparr>"] n
  have b: "spec_style_context
             (style_guide \<lparr>style_guide = [(''General'', ''be brief''), (''TONE'', ''kind'')]\<rparr>)
           = py_join [NL] (map (\<lambda>(k, v). k @ '': '' @ take 300 v @ ''...'')
               (style_guide \<lparr>style_guide = [(''General'', ''be brief''), (''TONE'', ''kind'')]\<rparr>))"
    by blast
  from a b show ?thesis by simp
qed

text \<open>
  Claim C10. \<open>load_style_guide\<close> puts the guide sectionized from the extracted text in the
  place of the stored one and returns it, so a section of the old guide that the new
  guide does not have is gone; when the extraction raises, the exception reaches the
  caller and the analyzer, its stored guide included, is what it was.
\<close>

theorem load_style_guide_replaces:
  "(extract_pdf_text pdf = Inr text \<longrightarrow>
      (\<exists>sg. process_style_guide text = Inr sg
         \<and> load_style_guide self pdf = (Inr sg, self\<lparr>style_guide := sg\<rparr>)
         \<and> style_guide (snd (load_style_guide self pdf)) = sg
         \<and> (\<forall>k. k \<notin> set (dict_keys sg) \<longrightarrow>
               k \<notin> set (dict_keys (style_guide (snd (load_style_guide self pdf)))))))
   \<and> (extract_pdf_text pdf = Inl e \<longrightarrow> load_style_guide self pdf = (Inl e, self))"
proof (intro conjI impI)
  assume x: "extract_pdf_text pdf = Inr text"
  from scan_lines_total [of "''General''" "[(''General'', [])]" "py_split NL text"]
  obtain sg where sg: "process_style_guide text = Inr sg"
    by (auto simp: process_style_guide_def initial_scan_state_def)
  with x have "load_style_guide self pdf = (Inr sg, self\<lparr>style_guide := sg\<rparr>)"
    by (simp add: load_style_guide_def)
  with sg show "\<exists>sg. process_style_guide text = Inr sg
         \<and> load_style_guide self pdf = (Inr sg, self\<lparr>style_guide := sg\<rparr>)
         \<and> style_guide (snd (load_style_guide self pdf)) = sg
         \<and> (\<forall>k. k \<notin> set (dict_keys sg) \<longrightarrow>
               k \<notin> set (dict_keys (style_guide (snd (load_style_guide self pdf)))))"
    by simp
next
  assume "extract_pdf_text pdf = Inl e"
  then show "load_style_guide self pdf = (Inl e, self)"
    by (simp add: load_style_guide_def)
qed

theorem load_style_guide_replaces_witness:
  "load_style_guide \<lparr>style_guide = [(''Old'', ''x'')]\<rparr> (Inr [Inr (''TONE'' @ [NL] @ ''be kind'')])
     = (Inr [(''General'', ''''), (''TONE'', ''be kind'' @ [NL])],
        \<lparr>style_guide = [(''General'', ''''), (''TONE'', ''be kind'' @ [NL])]\<rparr>)
   \<and> ''Old'' \<notin> set (dict_keys (style_guide (snd (load_style_guide \<lparr>style_guide = [(''Old'', ''x'')]\<rparr>
                                              (Inr [Inr (''TONE'' @ [NL] @ ''be kind'')])))))
   \<and> load_style_guide \<lparr>style_guide = [(''Old'', ''x'')]\<rparr>
        (Inr [Inr ''a'', Inl (Exn OtherException ''bad page'')])
     = (Inl (Exn OtherException ''bad page''), \<lparr>style_guide = [(''Old'', ''x'')]\<rparr>)"
proof -
  let ?self = "\<lparr>style_guide = [(''Old'', ''x'')]\<rparr>"
  let ?pdf = "Inr [Inr (''TONE'' @ [NL] @ ''be kind'')] :: pdf_file"
  let ?bad = "Inr [Inr ''a'', Inl (Exn OtherException ''bad page'')] :: pdf_file"
  have x: "extract_pdf_text ?pdf = Inr (''TONE'' @ [NL] @ ''be kind'' @ [NL])"
    by (simp add: extract_pdf_text_def)
  have p: "process_style_guide (''TONE'' @ [NL] @ ''be kind'' @ [NL])
             = Inr [(''General'', ''''), (''TONE'', ''be kind'' @ [NL])]"
    by code_simp
  have y: "extract_pdf_text ?bad = Inl (Exn OtherException ''bad page'')"
    by (simp add: extract_pdf_text_def)
  from load_style_guide_replaces
         [where pdf = ?pdf and ?text = "''TONE'' @ [NL] @ ''be kind'' @ [NL]" and self = ?self] x
  obtain sg where sg: "process_style_guide (''TONE'' @ [NL] @ ''be kind'' @ [NL]) = Inr sg"
      "load_style_guide ?self ?pdf = (Inr sg, ?self\<lparr>style_guide := sg\<rparr>)"
      "\<forall>k. k \<notin> set (dict_keys sg) \<longrightarrow>
           k \<notin> set (dict_keys (style_guide (snd (load_style_guide ?self ?pdf))))"
    by blast
  from sg(1) p have e: "sg = [(''General'', ''''), (''TONE'', ''be kind'' @ [NL])]" by simp
  then have "''Old'' \<notin> set (dict_keys sg)" by (simp add: dict_keys_def)
  with sg(3) have a: "''Old'' \<notin> set (dict_keys (style_guide (snd (load_style_guide ?self ?pdf))))"
    by blast
  from load_style_guide_replaces
         [where pdf = ?bad and e = "Exn OtherException ''bad page''" and self = ?self] y
  have b: "load_style_guide ?self ?bad = (Inl (Exn OtherException ''bad page''), ?self)"
    by blast
  from sg(2) e a b show ?thesis by simp
qed

text \<open>
  Claim C8. When the remote call raises in \<open>analyze_text\<close>, the call returns the degraded
  result: its \<open>overall_assessment\<close> is "Analysis error: " followed by the text of the
  exception, its \<open>style_evaluation\<close> and \<open>suggestions\<close> are fixed. When the remote call
  raises in \<open>generate_text\<close>, the call returns the fixed failure message (and shows
  the error on the page). Neither raises.
\<close>

theorem remote_failure_degrades:
  "(create (analysis_request (analysis_prompt (style_guide self) text content_type)) = Inl e \<longrightarrow>
      analyze_text create loads self text content_type
        = Inr (PyDict
                [(''overall_assessment'', PyStr (''Analysis error: '' @ message e)),
                 (''style_evaluation'', PyStr ''Unable to complete style evaluation''),
                 (''suggestions'',
                  PyList [PyStr ''Please try again in a moment'',
                          PyStr ''Consider breaking content into smaller sections''])]))
   \<and> (create (generation_request (generation_prompt (style_guide self) prompt content_type)) = Inl e \<longrightarrow>
      generate_text create self prompt content_type
        = (Inr ''Content generation failed. Please try again.'',
           [''Generation error: '' @ message e]))"
  by (simp add: analyze_text_remote_error error_result_def generate_text_def)

theorem remote_failure_degrades_witness:
  "analyze_text (\<lambda>req. Inl (Exn OtherException ''rate limit'')) json_loads
      \<lparr>style_guide = []\<rparr> ''hi'' ''Email''
     = Inr (PyDict
             [(''overall_assessment'', PyStr ''Analysis error: rate limit''),
              (''style_evaluation'', PyStr ''Unable to complete style evaluation''),
              (''suggestions'',
               PyList [PyStr ''Please try again in a moment'',
                       PyStr ''Consider breaking content into smaller sections''])])
   \<and> generate_text (\<lambda>req. Inl (Exn OtherException ''rate limit''))
      \<lparr>style_guide = []\<rparr> ''hi'' ''Email''
     = (Inr ''Content generation failed. Please try again.'', [''Generation error: rate limit''])"
  using remote_failure_degrades
          [where create = "\<lambda>req. Inl (Exn OtherException ''rate limit'')"
             and e = "Exn OtherException ''rate limit''" and loads = json_loads
             and self = "\<lparr>style_guide = []\<rparr>" and ?text = "''hi''" and prompt = "''hi''"
             and content_type = "''Email''"]
  by simp




text \<open>
  Claim C4, as stated: whenever both parses fail, \<open>analyze_text\<close> returns the fallback
  record of lines 120 to 128. It does not when a parse fails with an exception that
  line 116 does not catch. For the response \<open>x {"a": 11...1}\<close> with 4301 digits the
  first parse raises a JSONDecodeError, the parse of the brace span raises the
  ValueError of an over-long integer, and line 130 turns it into the "Analysis error"
  record.
\<close>

theorem formatting_fallback_counterexample:
  "json_loads (py_str (PStr (''x {'' @ [DQ] @ ''a'' @ [DQ] @ '': '' @ long_digits @ ''}'')))
     = Inl (Exn JSONDecodeError ''Expecting value'')
   \<and> brace_span (py_str (PStr (''x {'' @ [DQ] @ ''a'' @ [DQ] @ '': '' @ long_digits @ ''}'')))
     = Some (''{'' @ [DQ] @ ''a'' @ [DQ] @ '': '' @ long_digits @ ''}'')
   \<and> json_loads (''{'' @ [DQ] @ ''a'' @ [DQ] @ '': '' @ long_digits @ ''}'')
     = Inl (Exn ValueError
         (''Exceeds the limit (4300 digits) for integer string conversion: value has 4301''
          @ '' digits; use sys.set_int_max_str_digits() to increase the limit''))
   \<and> analyze_text
       (\<lambda>req. Inr (PStr (''x {'' @ [DQ] @ ''a'' @ [DQ] @ '': '' @ long_digits @ ''}'')))
       json_loads \<lparr>style_guide = []\<rparr> ''hi'' ''Email''
     = Inr (PyDict
             [(''overall_assessment'',
               PyStr (''Analysis error: Exceeds the limit (4300 digits) for integer string''
                      @ '' conversion: value has 4301 digits; use sys.set_int_max_str_digits()''
                      @ '' to increase the limit'')),
              (''style_evaluation'', PyStr ''Unable to complete style evaluation''),
              (''suggestions'',
               PyList [PyStr ''Please try again in a moment'',
                       PyStr ''Consider breaking content into smaller sections''])])
   \<and> analyze_text
       (\<lambda>req. Inr (PStr (''x {'' @ [DQ] @ ''a'' @ [DQ] @ '': '' @ long_digits @ ''}'')))
       json_loads \<lparr>style_guide = []\<rparr> ''hi'' ''Email''
     \<noteq> Inr (formatting_fallback ''hi'')"
proof -
  let ?J = "''{'' @ [DQ] @ ''a'' @ [DQ] @ '': '' @ long_digits @ ''}''"
  let ?R = "''x {'' @ [DQ] @ ''a'' @ [DQ] @ '': '' @ long_digits @ ''}''"
  let ?D = "Exn JSONDecodeError ''Expecting value''"
  have t1: "json_loads (py_str (PStr ?R)) = Inl ?D"
    using json_loads_not_json [of "CHR '' '' # ?J"] by (simp add: py_str_def)
  have sp: "brace_span (py_str (PStr ?R)) = Some ?J"
    using brace_span_SomeI [of "''x ''" "[]" "[DQ] @ ''a'' @ [DQ] @ '': '' @ long_digits"]
    by (simp add: py_str_def)
  have t2: "json_loads ?J = Inl (int_too_long 4301)"
    using json_loads_long_int [OF long_digits_facts(1-4)] by (simp only: long_digits_facts(5))
  have k: "kind (int_too_long 4301) \<noteq> JSONDecodeError" "kind (int_too_long 4301) \<noteq> AttributeError"
    by (simp_all add: int_too_long_def)
  have a: "analyze_text (\<lambda>req. Inr (PStr ?R)) json_loads \<lparr>style_guide = []\<rparr> ''hi'' ''Email''
             = Inr (error_result (int_too_long 4301))"
    by (rule analyze_text_tier2_other [where e = ?D and js = ?J, OF _ t1 _ sp t2 k]) simp_all
  have m: "int_too_long 4301
             = Exn ValueError
                 (''Exceeds the limit (4300 digits) for integer string conversion: value has 4301''
                  @ '' digits; use sys.set_int_max_str_digits() to increase the limit'')"
    by (simp add: int_too_long_def str_nat_4301)
  have n: "error_result (int_too_long 4301) \<noteq> formatting_fallback ''hi''"
    by (simp add: error_result_def formatting_fallback_def)
  from t1 sp t2 a n show ?thesis
    by (simp only: m) (simp add: error_result_def)
qed

text \<open>
  Claim C4, amended: when the response text cannot be parsed, \<open>analyze_text\<close> returns
  without raising. If \<open>json.loads\<close> raises a JSONDecodeError on the response text and
  the text has no brace span, or parsing the span raises a JSONDecodeError or an
  AttributeError (the failures line 116 catches), it returns the fallback record: the
  fixed "Analysis completed with formatting issues." as \<open>overall_assessment\<close>, "Content
  analyzed: " with the first 100 characters of the content given to \<open>analyze_text\<close>
  (not of the response) and three dots as \<open>style_evaluation\<close>, and three fixed
  suggestions. If a parse fails with any other exception (the ValueError of an integer
  of more than 4300 digits, a RecursionError), it returns the "Analysis error" record
  of line 130 with the text of that exception.
\<close>

theorem unparseable_response_results:
  assumes "create (analysis_request (analysis_prompt (style_guide self) text content_type)) = Inr content"
  shows "(loads (py_str content) = Inl e \<and> kind e = JSONDecodeError
          \<and> (brace_span (py_str content) = None
             \<or> (\<exists>js e'. brace_span (py_str content) = Some js \<and> loads js = Inl e'
                   \<and> (kind e' = JSONDecodeError \<or> kind e' = AttributeError))) \<longrightarrow>
          analyze_text create loads self text content_type
            = Inr (PyDict
                    [(''overall_assessment'', PyStr ''Analysis completed with formatting issues.''),
                     (''style_evaluation'', PyStr (''Content analyzed: '' @ take 100 text @ ''...'')),
                     (''suggestions'',
                      PyList [PyStr ''Consider reviewing the content for clarity'',
                              PyStr ''Ensure all key points are clearly communicated'',
                              PyStr ''Review formatting and structure''])]))
       \<and> (loads (py_str content) = Inl e \<and> kind e \<noteq> JSONDecodeError \<longrightarrow>
          analyze_text create loads self text content_type
            = Inr (PyDict
                    [(''overall_assessment'', PyStr (''Analysis error: '' @ message e)),
                     (''style_evaluation'', PyStr ''Unable to complete style evaluation''),
                     (''suggestions'',
                      PyList [PyStr ''Please try again in a moment'',
                              PyStr ''Consider breaking content into smaller sections''])]))
       \<and> (loads (py_str content) = Inl e \<and> kind e = JSONDecodeError
          \<and> brace_span (py_str content) = Some span_text \<and> loads span_text = Inl e2
          \<and> kind e2 \<noteq> JSONDecodeError \<and> kind e2 \<noteq> AttributeError \<longrightarrow>
          analyze_text create loads self text content_type
            = Inr (PyDict
                    [(''overall_assessment'', PyStr (''Analysis error: '' @ message e2)),
                     (''style_evaluation'', PyStr ''Unable to complete style evaluation''),
                     (''suggestions'',
                      PyList [PyStr ''Please try again in a moment'',
                              PyStr ''Consider breaking content into smaller sections''])]))"
proof (intro conjI impI)
  assume h: "loads (py_str content) = Inl e \<and> kind e = JSONDecodeError
          \<and> (brace_span (py_str content) = None
             \<or> (\<exists>js e'. brace_span (py_str content) = Some js \<and> loads js = Inl e'
                   \<and> (kind e' = JSONDecodeError \<or> kind e' = AttributeError)))"
  then have l: "loads (py_str content) = Inl e" and k: "kind e = JSONDecodeError" by simp_all
  from h have "brace_span (py_str content) = None
             \<or> (\<exists>js e'. brace_span (py_str content) = Some js \<and> loads js = Inl e'
                   \<and> (kind e' = JSONDecodeError \<or> kind e' = AttributeError))"
    by simp
  then have "analyze_text create loads self text content_type = Inr (formatting_fallback text)"
  proof
    assume "brace_span (py_str content) = None"
    with assms l k show ?thesis by (rule analyze_text_no_span)
  next
    assume "\<exists>js e'. brace_span (py_str content) = Some js \<and> loads js = Inl e'
               \<and> (kind e' = JSONDecodeError \<or> kind e' = AttributeError)"
    then obtain js e' where "brace_span (py_str content) = Some js" "loads js = Inl e'"
      "kind e' = JSONDecodeError \<or> kind e' = AttributeError"
      by blast
    with assms l k show ?thesis by (rule analyze_text_span_unparsed)
  qed
  then show "analyze_text create loads self text content_type
            = Inr (PyDict
                    [(''overall_assessment'', PyStr ''Analysis completed with formatting issues.''),
                     (''style_evaluation'', PyStr (''Content analyzed: '' @ take 100 text @ ''...'')),
                     (''suggestions'',
                      PyList [PyStr ''Consider reviewing the content for clarity'',
                              PyStr ''Ensure all key points are clearly communicated'',
                              PyStr ''Review formatting and structure''])])"
    by (simp add: formatting_fallback_def py_slice_to_def)
next
  assume "loads (py_str content) = Inl e \<and> kind e \<noteq> JSONDecodeError"
  with assms have "analyze_text create loads self text content_type = Inr (error_result e)"
    by (simp add: analyze_text_tier1_other)
  then show "analyze_text create loads self text content_type
            = Inr (PyDict
                    [(''overall_assessment'', PyStr (''Analysis error: '' @ message e)),
                     (''style_evaluation'', PyStr ''Unable to complete style evaluation''),
                     (''suggestions'',
                      PyList [PyStr ''Please try again in a moment'',
                              PyStr ''Consider breaking content into smaller sections''])])"
    by (simp add: error_result_def)
next
  assume "loads (py_str content) = Inl e \<and> kind e = JSONDecodeError
          \<and> brace_span (py_str content) = Some span_text \<and> loads span_text = Inl e2
          \<and> kind e2 \<noteq> JSONDecodeError \<and> kind e2 \<noteq> AttributeError"
  with assms have "analyze_text create loads self text content_type = Inr (error_result e2)"
    by (simp add: analyze_text_tier2_other)
  then show "analyze_text create loads self text content_type
            = Inr (PyDict
                    [(''overall_assessment'', PyStr (''Analysis error: '' @ message e2)),
                     (''style_evaluation'', PyStr ''Unable to complete style evaluation''),
                     (''suggestions'',
                      PyList [PyStr ''Please try again in a moment'',
                              PyStr ''Consider breaking content into smaller sections''])])"
    by (simp add: error_result_def)
qed

theorem unparseable_response_results_witness:
  "analyze_text (\<lambda>req. Inr (PStr ''no json here at all'')) json_loads \<lparr>style_guide = []\<rparr>
      ''Dear team, the release is late.'' ''Email''
     = Inr (PyDict
             [(''overall_assessment'', PyStr ''Analysis completed with formatting issues.''),
              (''style_evaluation'', PyStr ''Content analyzed: Dear team, the release is late....''),
              (''suggestions'',
               PyList [PyStr ''Consider reviewing the content for clarity'',
                       PyStr ''Ensure all key points are clearly communicated'',
                       PyStr ''Review formatting and structure''])])
   \<and> analyze_text (\<lambda>req. Inr (PStr ''see {not json} here'')) json_loads \<lparr>style_guide = []\<rparr>
      ''Dear team, the release is late.'' ''Email''
     = Inr (PyDict
             [(''overall_assessment'', PyStr ''Analysis completed with formatting issues.''),
              (''style_evaluation'', PyStr ''Content analyzed: Dear team, the release is late....''),
              (''suggestions'',
               PyList [PyStr ''Consider reviewing the content for clarity'',
                       PyStr ''Ensure all key points are clearly communicated'',
                       PyStr ''Review formatting and structure''])])
   \<and> analyze_text (\<lambda>req. Inr (PStr (''{'' @ [DQ] @ ''a'' @ [DQ] @ '': '' @ long_digits @ ''}'')))
      json_loads \<lparr>style_guide = []\<rparr> ''hi'' ''Email''
     = Inr (PyDict
             [(''overall_assessment'', PyStr (''Analysis error: '' @ message (int_too_long 4301))),
              (''style_evaluation'', PyStr ''Unable to complete style evaluation''),
              (''suggestions'',
               PyList [PyStr ''Please try again in a moment'',
                       PyStr ''Consider breaking content into smaller sections''])])
   \<and> analyze_text (\<lambda>req. Inr (PStr (''x {'' @ [DQ] @ ''a'' @ [DQ] @ '': '' @ long_digits @ ''}'')))
      json_loads \<lparr>style_guide = []\<rparr> ''hi'' ''Email''
     = Inr (PyDict
             [(''overall_assessment'', PyStr (''Analysis error: '' @ message (int_too_long 4301))),
              (''style_evaluation'', PyStr ''Unable to complete style evaluation''),
              (''suggestions'',
               PyList [PyStr ''Please try again in a moment'',
                       PyStr ''Consider breaking content into smaller sections''])])"
proof -
  let ?D = "Exn JSONDecodeError ''Expecting value''"
  let ?J = "''{'' @ [DQ] @ ''a'' @ [DQ] @ '': '' @ long_digits @ ''}''"
  let ?R = "''x {'' @ [DQ] @ ''a'' @ [DQ] @ '': '' @ long_digits @ ''}''"
  have t1: "json_loads (py_str (PStr ''no json here at all'')) = Inl ?D" by code_simp
  have k: "kind ?D = JSONDecodeError" by simp
  have n: "brace_span (py_str (PStr ''no json here at all'')) = None" by code_simp
  have u1: "json_loads (py_str (PStr ''see {not json} here'')) = Inl ?D" by code_simp
  have us: "brace_span (py_str (PStr ''see {not json} here'')) = Some ''{not json}''" by code_simp
  have u2: "json_loads ''{not json}'' = Inl ?D" by code_simp
  have v: "json_loads (py_str (PStr ?J)) = Inl (int_too_long 4301)"
    using json_loads_long_int [OF long_digits_facts(1-4)]
    by (simp only: long_digits_facts(5) py_str_def payload.case)
  have kv: "kind (int_too_long 4301) \<noteq> JSONDecodeError" "kind (int_too_long 4301) \<noteq> AttributeError"
    by (simp_all add: int_too_long_def)
  have w1: "json_loads (py_str (PStr ?R)) = Inl ?D"
    using json_loads_not_json [of "CHR '' '' # ?J"] by (simp add: py_str_def)
  have ws: "brace_span (py_str (PStr ?R)) = Some ?J"
    using brace_span_SomeI [of "''x ''" "[]" "[DQ] @ ''a'' @ [DQ] @ '': '' @ long_digits"]
    by (simp add: py_str_def)
  have a: "analyze_text (\<lambda>req. Inr (PStr ''no json here at all'')) json_loads \<lparr>style_guide = []\<rparr>
      ''Dear team, the release is late.'' ''Email''
     = Inr (PyDict
             [(''overall_assessment'', PyStr ''Analysis completed with formatting issues.''),
              (''style_evaluation'',
               PyStr (''Content analyzed: '' @ take 100 ''Dear team, the release is late.'' @ ''...'')),
              (''suggestions'',
               PyList [PyStr ''Consider reviewing the content for clarity'',
                       PyStr ''Ensure all key points are clearly communicated'',
                       PyStr ''Review formatting and structure''])])"
    using unparseable_response_results
            [where create = "\<lambda>req. Inr (PStr ''no json here at all'')" and loads = json_loads
               and content = "PStr ''no json here at all''" and e = ?D
               and self = "\<lparr>style_guide = []\<rparr>" and ?text = "''Dear team, the release is late.''"
               and content_type = "''Email''"]
          t1 k n
    by simp
  have b: "analyze_text (\<lambda>req. Inr (PStr ''see {not json} here'')) json_loads \<lparr>style_guide = []\<rparr>
      ''Dear team, the release is late.'' ''Email''
     = Inr (PyDict
             [(''overall_assessment'', PyStr ''Analysis completed with formatting issues.''),
              (''style_evaluation'',
               PyStr (''Content analyzed: '' @ take 100 ''Dear team, the release is late.'' @ ''...'')),
              (''suggestions'',
               PyList [PyStr ''Consider reviewing the content for clarity'',
                       PyStr ''Ensure all key points are clearly communicated'',
                       PyStr ''Review formatting and structure''])])"
    using unparseable_response_results
            [where create = "\<lambda>req. Inr (PStr ''see {not json} here'')" and loads = json_loads
               and content = "PStr ''see {not json} here''" and e = ?D
               and self = "\<lparr>style_guide = []\<rparr>" and ?text = "''Dear team, the release is late.''"
               and content_type = "''Email''"]
          u1 k us u2
    by simp
  have c: "analyze_text (\<lambda>req. Inr (PStr ?J)) json_loads \<lparr>style_guide = []\<rparr> ''hi'' ''Email''
     = Inr (PyDict
             [(''overall_assessment'', PyStr (''Analysis error: '' @ message (int_too_long 4301))),
              (''style_evaluation'', PyStr ''Unable to complete style evaluation''),
              (''suggestions'',
               PyList [PyStr ''Please try again in a moment'',
                       PyStr ''Consider breaking content into smaller sections''])])"
    using unparseable_response_results
            [where create = "\<lambda>req. Inr (PStr ?J)" and loads = json_loads
               and content = "PStr ?J" and e = "int_too_long 4301"
               and self = "\<lparr>style_guide = []\<rparr>" and ?text = "''hi''"
               and content_type = "''Email''"]
          v kv
    by blast
  have d: "analyze_text (\<lambda>req. Inr (PStr ?R)) json_loads \<lparr>style_guide = []\<rparr> ''hi'' ''Email''
     = Inr (PyDict
             [(''overall_assessment'', PyStr (''Analysis error: '' @ message (int_too_long 4301))),
              (''style_evaluation'', PyStr ''Unable to complete style evaluation''),
              (''suggestions'',
               PyList [PyStr ''Please try again in a moment'',
                       PyStr ''Consider breaking content into smaller sections''])])"
    using unparseable_response_results
            [where create = "\<lambda>req. Inr (PStr ?R)" and loads = json_loads
               and content = "PStr ?R" and e = ?D and ?span_text = ?J and ?e2.0 = "int_too_long 4301"
               and self = "\<lparr>style_guide = []\<rparr>" and ?text = "''hi''"
               and content_type = "''Email''"]
          w1 k ws v [unfolded py_str_def payload.case] kv
    by blast
  from a b c d show ?thesis by simp
qed

text \<open>
  Claim C2, as stated: \<open>analyze_text\<close> always returns a record with the three fields of an
  analysis result. It does not: what \<open>json.loads\<close> gives is returned as it is (lines 107
  and 115). For a response whose content prints as
  \<open>[TextBlock(text='{"a":1}', type='text')]\<close> the first parse fails, the brace span is
  \<open>{"a":1}\<close>, and the call returns \<open>{"a": 1}\<close>, which has none of the fields.
\<close>

theorem analyze_result_shape_counterexample:
  "analyze_text
     (\<lambda>req. Inr (PStructured (''[TextBlock(text='' @ [SQ] @ ''{'' @ [DQ] @ ''a'' @ [DQ] @ '':1}''
        @ [SQ] @ '', type='' @ [SQ] @ ''text'' @ [SQ] @ '')]'')))
     json_loads \<lparr>style_guide = []\<rparr> ''hi'' ''Email''
     = Inr (PyDict [(''a'', PyInt 1)])
   \<and> \<not> analysis_result_shape (PyDict [(''a'', PyInt 1)])"
  by code_simp

text \<open>
  Claim C2, amended: \<open>analyze_text\<close> and \<open>generate_text\<close> never raise. \<open>generate_text\<close>
  returns a string. \<open>analyze_text\<close> returns either a record with the three fields of an
  analysis result (the two fallback records have them), or else, as it is and whatever
  its shape, the value that \<open>json.loads\<close> gave for the response text or for its brace
  span.
\<close>

theorem analyze_generate_total:
  "(\<exists>v. analyze_text create loads self text content_type = Inr v
        \<and> (analysis_result_shape v
           \<or> (\<exists>content.
                 create (analysis_request (analysis_prompt (style_guide self) text content_type))
                   = Inr content
                 \<and> (loads (py_str content) = Inr v
                    \<or> (\<exists>js. brace_span (py_str content) = Some js \<and> loads js = Inr v)))))
   \<and> (\<exists>s log. generate_text create self prompt content_type = (Inr s, log))"
proof
  let ?req = "analysis_request (analysis_prompt (style_guide self) text content_type)"
  show "\<exists>v. analyze_text create loads self text content_type = Inr v
        \<and> (analysis_result_shape v
           \<or> (\<exists>content. create ?req = Inr content
                 \<and> (loads (py_str content) = Inr v
                    \<or> (\<exists>js. brace_span (py_str content) = Some js \<and> loads js = Inr v))))"
  proof (cases "create ?req")
    case (Inl e)
    then show ?thesis using analyze_text_remote_error shape_error_result by metis
  next
    case content: (Inr content)
    show ?thesis
    proof (cases "loads (py_str content)")
      case (Inr v)
      with content show ?thesis using analyze_text_tier1 by metis
    next
      case e: (Inl e)
      show ?thesis
      proof (cases "kind e = JSONDecodeError")
        case False
        with content e show ?thesis using analyze_text_tier1_other shape_error_result by metis
      next
        case True
        show ?thesis
        proof (cases "brace_span (py_str content)")
          case None
          with content e True show ?thesis
            using analyze_text_no_span shape_formatting_fallback by metis
        next
          case js: (Some js)
          show ?thesis
          proof (cases "loads js")
            case (Inr v)
            with content e True js show ?thesis using analyze_text_tier2 by metis
          next
            case e': (Inl e')
            show ?thesis
            proof (cases "kind e' = JSONDecodeError \<or> kind e' = AttributeError")
              case True
              with content e \<open>kind e = JSONDecodeError\<close> js e' show ?thesis
                using analyze_text_span_unparsed shape_formatting_fallback by metis
            next
              case False
              with content e \<open>kind e = JSONDecodeError\<close> js e' show ?thesis
                using analyze_text_tier2_other shape_error_result by metis
            qed
          qed
        qed
      qed
    qed
  qed
next
  show "\<exists>s log. generate_text create self prompt content_type = (Inr s, log)"
    by (simp add: generate_text_def split: sum.split)
qed

theorem analyze_generate_total_witness:
  "analyze_text (\<lambda>req. Inr (PStr ''no json here at all'')) json_loads \<lparr>style_guide = []\<rparr>
      ''Dear team'' ''Email''
     = Inr (formatting_fallback ''Dear team'')
   \<and> analysis_result_shape (formatting_fallback ''Dear team'')
   \<and> (\<exists>s log. generate_text (\<lambda>req. Inr (PStr ''no json here at all'')) \<lparr>style_guide = []\<rparr>
         ''greet'' ''Email'' = (Inr s, log))"
proof -
  let ?create = "\<lambda>req :: request. (Inr (PStr ''no json here at all'') :: exn + payload)"
  have r: "analyze_text ?create json_loads \<lparr>style_guide = []\<rparr> ''Dear team'' ''Email''
            = Inr (formatting_fallback ''Dear team'')"
    by code_simp
  have t1: "json_loads ''no json here at all'' = Inl (Exn JSONDecodeError ''Expecting value'')"
    by code_simp
  have n: "brace_span ''no json here at all'' = None" by code_simp
  note T = analyze_generate_total
             [where create = ?create and loads = json_loads and self = "\<lparr>style_guide = []\<rparr>"
                and ?text = "''Dear team''" and content_type = "''Email''" and prompt = "''greet''"]
  from T r have "analysis_result_shape (formatting_fallback ''Dear team'')
      \<or> (\<exists>content. ?create (analysis_request
                (analysis_prompt (style_guide \<lparr>style_guide = []\<rparr>) ''Dear team'' ''Email''))
              = Inr content
            \<and> (json_loads (py_str content) = Inr (formatting_fallback ''Dear team'')
               \<or> (\<exists>js. brace_span (py_str content) = Some js
                      \<and> json_loads js = Inr (formatting_fallback ''Dear team''))))"
    by auto
  then have s: "analysis_result_shape (formatting_fallback ''Dear team'')"
    using t1 n by (auto simp: py_str_def)
  from T have g: "\<exists>s log. generate_text ?create \<lparr>style_guide = []\<rparr> ''greet'' ''Email'' = (Inr s, log)"
    by blast
  from r s g show ?thesis by blast
qed


end
